theory Spec2Isabelle
  imports Main
begin

section \<open>Strings\<close>

text \<open>
  The script works on JavaScript strings. They are modelled as \<open>string\<close>: one \<open>char\<close> per
  code unit, restricted to the code units below 256 (Latin-1). The helpers below are the
  string methods and regular expressions the script uses, written out on that range.
\<close>

definition code :: "char \<Rightarrow> nat" where
  "code c = of_char c"

definition is_upper :: "char \<Rightarrow> bool" where
  "is_upper c = (65 \<le> code c \<and> code c \<le> 90)"

definition is_lower :: "char \<Rightarrow> bool" where
  "is_lower c = (97 \<le> code c \<and> code c \<le> 122)"

definition is_digit :: "char \<Rightarrow> bool" where
  "is_digit c = (48 \<le> code c \<and> code c \<le> 57)"

text \<open>The class \<open>\s\<close>: tab, line feed, vertical tab, form feed, carriage return, space and
  the no-break space U+00A0 (the other members of \<open>\s\<close> lie above U+00FF).\<close>

definition is_space :: "char \<Rightarrow> bool" where
  "is_space c = (code c \<in> {9, 10, 11, 12, 13, 32, 160})"

definition is_hyphen :: "char \<Rightarrow> bool" where
  "is_hyphen c = (c = CHR ''-'')"

text \<open>\<open>String.prototype.toLowerCase\<close>: A-Z and the Latin-1 capitals U+00C0..U+00DE (without
  the multiplication sign U+00D7) move up by 32; every other code unit below 256 is kept.\<close>

definition toLowerCase_char :: "char \<Rightarrow> char" where
  "toLowerCase_char c =
     (if is_upper c \<or> (192 \<le> code c \<and> code c \<le> 222 \<and> code c \<noteq> 215)
      then char_of (code c + 32) else c)"

definition toLowerCase :: "string \<Rightarrow> string" where
  "toLowerCase s = map toLowerCase_char s"

text \<open>\<open>.replace(/[^a-z0-9\s-]/g, '')\<close>\<close>

definition remove_special :: "string \<Rightarrow> string" where
  "remove_special s =
     filter (\<lambda>c. is_lower c \<or> is_digit c \<or> is_space c \<or> is_hyphen c) s"

text \<open>\<open>.replace(/\s+/g, '-')\<close>: every maximal run of white space becomes one hyphen.\<close>

function spaces_to_hyphens :: "string \<Rightarrow> string" where
  "spaces_to_hyphens [] = []"
| "spaces_to_hyphens (c # cs) =
     (if is_space c then CHR ''-'' # spaces_to_hyphens (dropWhile is_space cs)
      else c # spaces_to_hyphens cs)"
  by pat_completeness auto
termination
  by (relation "measure length") (auto simp: le_imp_less_Suc length_dropWhile_le)

text \<open>\<open>.substring(0, 30)\<close>\<close>

definition substring_0_30 :: "string \<Rightarrow> string" where
  "substring_0_30 s = take 30 s"

text \<open>\<open>.replace(/^-+|-+$/g, '')\<close>: the leading run and the trailing run of hyphens go.\<close>

definition trim_hyphens :: "string \<Rightarrow> string" where
  "trim_hyphens s = rev (dropWhile is_hyphen (rev (dropWhile is_hyphen s)))"

text \<open>\<open>String.prototype.includes\<close>\<close>

fun includes_str :: "string \<Rightarrow> string \<Rightarrow> bool" where
  "includes_str [] sub = (sub = [])"
| "includes_str (c # cs) sub = (take (length sub) (c # cs) = sub \<or> includes_str cs sub)"

text \<open>\<open>Array.prototype.join(" ")\<close>\<close>

fun join_spaces :: "string list \<Rightarrow> string" where
  "join_spaces [] = []"
| "join_spaces [a] = a"
| "join_spaces (a # b # rest) = a @ '' '' @ join_spaces (b # rest)"

text \<open>A string (or \<open>undefined\<close>, modelled as \<open>None\<close>) in a boolean position: \<open>undefined\<close>
  and the empty string are falsy.\<close>

definition truthy :: "string option \<Rightarrow> bool" where
  "truthy s = (case s of None \<Rightarrow> False | Some v \<Rightarrow> v \<noteq> [])"

section \<open>The component name (step 3)\<close>

text \<open>The method chain applied to a non-empty prompt.\<close>

definition slug :: "string \<Rightarrow> string" where
  "slug p = trim_hyphens (substring_0_30 (spaces_to_hyphens (remove_special (toLowerCase p))))"

definition defaultComponentName :: "string option \<Rightarrow> string" where
  "defaultComponentName prompt =
     (case prompt of
        None \<Rightarrow> ''generated-component''
      | Some p \<Rightarrow> if p \<noteq> [] then slug p else ''generated-component'')"

definition deriveComponentName :: "string option \<Rightarrow> string" where
  "deriveComponentName prompt =
     (if defaultComponentName prompt \<noteq> [] then defaultComponentName prompt
      else ''generated-component'')"

section \<open>The entry point's arguments\<close>

text \<open>\<open>[0-9a-f]\<close> under the flag \<open>i\<close>.\<close>

definition is_hex :: "char \<Rightarrow> bool" where
  "is_hex c = (is_digit c \<or> (97 \<le> code c \<and> code c \<le> 102) \<or> (65 \<le> code c \<and> code c \<le> 70))"

text \<open>\<open>/^[0-9a-f]{8}-[0-9a-f]{4}-[0-9a-f]{4}-[0-9a-f]{4}-[0-9a-f]{12}$/i.test(s)\<close>: the
  pattern is anchored at both ends, so the whole string has this shape.\<close>

fun hex_groups :: "nat list \<Rightarrow> string \<Rightarrow> bool" where
  "hex_groups [] s = False"
| "hex_groups [n] s = (length s = n \<and> list_all is_hex s)"
| "hex_groups (n # m # ms) s =
     (list_all is_hex (take n s) \<and> length (take n s) = n \<and>
      (case drop n s of [] \<Rightarrow> False | d # rest \<Rightarrow> is_hyphen d \<and> hex_groups (m # ms) rest))"

definition uuidRegex_test :: "string \<Rightarrow> bool" where
  "uuidRegex_test s = hex_groups [8, 4, 4, 4, 12] s"

definition default_prompt :: string where
  "default_prompt = ''Create a beautiful, modern button component with multiple variants (primary, secondary, outline) and different sizes. Include hover effects and proper accessibility features.''"

text \<open>The argument parsing of \<open>main\<close>: the pair of \<open>sandboxId\<close> and \<open>prompt\<close> that is handed
  to the pipeline.\<close>

definition or_default_prompt :: "string option \<Rightarrow> string" where
  "or_default_prompt prompt =
     (case prompt of None \<Rightarrow> default_prompt | Some p \<Rightarrow> if p \<noteq> [] then p else default_prompt)"

definition parse_args :: "string list \<Rightarrow> string option \<times> string" where
  "parse_args args =
     (let (sandboxId, prompt) =
        (case args of
           [] \<Rightarrow> (None, None)
         | a # rest \<Rightarrow>
             if uuidRegex_test a then (Some a, Some (join_spaces rest))
             else (None, Some (join_spaces args)))
      in (sandboxId, or_default_prompt prompt))"

section \<open>The sandbox provider\<close>

text \<open>
  The pipeline talks to the outside through the Daytona client: \<open>daytona.list()\<close>,
  \<open>daytona.create(...)\<close>, \<open>sandbox.getUserRootDir()\<close> and
  \<open>sandbox.process.executeCommand(command, cwd, env, timeout)\<close>, and through
  \<open>process.exit\<close>. Each of them is a \<open>call\<close>; a run is observed as the list of calls it
  made, in order. \<open>Sandbox_stop\<close> and \<open>Sandbox_delete\<close> are the provider's operations that
  end a sandbox; they are part of the interface although the script has no call site for
  them. Console output is not part of the model.
\<close>

record sandbox =
  sandbox_id :: string

record execute_response =
  exitCode :: int
  result :: string

datatype error = Error string

datatype 'a promise = Resolved 'a | Rejected error

type_synonym env_vars = "(string \<times> string option) list"

datatype call =
    Daytona_list
  | Daytona_create bool string
  | Sandbox_getUserRootDir string
  | Sandbox_executeCommand string string string "env_vars option" "nat option"
  | Sandbox_stop string
  | Sandbox_delete string
  | Process_exit int

text \<open>
  What the provider answers is not fixed by the script, so it is a parameter. An answer may
  depend on everything that was called before (a sandbox has state), hence the first
  argument: the calls made so far. An awaited call either resolves with a value or rejects
  with an error, which the script sees as an exception.
\<close>

record provider =
  on_list :: "call list \<Rightarrow> sandbox list promise"
  on_create :: "call list \<Rightarrow> bool \<Rightarrow> string \<Rightarrow> sandbox promise"
  on_getUserRootDir :: "call list \<Rightarrow> string \<Rightarrow> string promise"
  on_executeCommand ::
    "call list \<Rightarrow> string \<Rightarrow> string \<Rightarrow> string \<Rightarrow> env_vars option \<Rightarrow> nat option
       \<Rightarrow> execute_response promise"

record process_env =
  DAYTONA_API_KEY :: "string option"
  ANTHROPIC_API_KEY :: "string option"

section \<open>State and sequencing\<close>

text \<open>
  The variables declared before the \<open>try\<close> block (\<open>sandbox\<close>, \<open>sandboxId\<close>,
  \<open>componentName\<close>) are visible in the \<open>catch\<close> block, so they are state, together with
  the calls made so far. A step either yields a value or throws, and returns the state.
\<close>

record state =
  var_sandbox :: "sandbox option"
  var_sandboxId :: "string option"
  var_componentName :: string
  calls :: "call list"

type_synonym 'a step = "state \<Rightarrow> (error + 'a) \<times> state"

definition and_then :: "'a step \<Rightarrow> ('a \<Rightarrow> 'b step) \<Rightarrow> 'b step" where
  "and_then f g st = (case f st of (Inl e, st') \<Rightarrow> (Inl e, st') | (Inr a, st') \<Rightarrow> g a st')"

definition throw :: "error \<Rightarrow> 'a step" where
  "throw e st = (Inl e, st)"

definition yield :: "'a \<Rightarrow> 'a step" where
  "yield a st = (Inr a, st)"

text \<open>\<open>await\<close> on a call: the call is recorded, then its answer is the value or the throw.\<close>

definition await :: "call \<Rightarrow> (call list \<Rightarrow> 'a promise) \<Rightarrow> 'a step" where
  "await c answer st =
     (case answer (calls st) of
        Resolved a \<Rightarrow> (Inr a, st\<lparr>calls := calls st @ [c]\<rparr>)
      | Rejected e \<Rightarrow> (Inl e, st\<lparr>calls := calls st @ [c]\<rparr>))"

definition executeCommand ::
  "provider \<Rightarrow> sandbox \<Rightarrow> string \<Rightarrow> string \<Rightarrow> env_vars option \<Rightarrow> nat option
     \<Rightarrow> execute_response step" where
  "executeCommand P sb command cwd env timeout =
     await (Sandbox_executeCommand (sandbox_id sb) command cwd env timeout)
       (\<lambda>cs. on_executeCommand P cs (sandbox_id sb) command cwd env timeout)"

section \<open>The generation script\<close>

definition REGISTRY_URL :: string where
  "REGISTRY_URL = ''http://host.docker.internal:3030''"

text \<open>Characters that cannot stand inside a string literal here.\<close>

definition sq :: string where "sq = [CHR 0x27]"
definition dq :: string where "dq = [CHR 0x22]"
definition nl :: string where "nl = [CHR 0x0A]"

text \<open>
  The text of \<open>generate-component.js\<close> is a template with four interpolations: the prompt
  (or a fixed sentence), the component type, the framework line and the component name.
  The interpolations are as in the source; the fixed prose between them is abbreviated to
  its opening words, since the pipeline only writes the text to a file.
\<close>

definition componentType :: "string option \<Rightarrow> string" where
  "componentType prompt =
     (case prompt of
        None \<Rightarrow> ''UI''
      | Some p \<Rightarrow>
          if p \<noteq> [] then
            (if includes_str (toLowerCase p) ''data'' \<or> includes_str (toLowerCase p) ''api''
                \<or> includes_str (toLowerCase p) ''chart''
             then ''data-driven'' else ''UI'')
          else ''UI'')"

definition framework :: "string option \<Rightarrow> string" where
  "framework prompt =
     (case prompt of
        None \<Rightarrow> ''Uses vanilla JavaScript or your preferred framework''
      | Some p \<Rightarrow>
          if includes_str (toLowerCase p) ''react'' then ''Uses React''
          else if includes_str (toLowerCase p) ''vue'' then ''Uses Vue''
          else ''Uses vanilla JavaScript or your preferred framework'')"

definition prompt_or_fixed :: "string option \<Rightarrow> string" where
  "prompt_or_fixed prompt =
     (case prompt of
        None \<Rightarrow> ''Create a beautiful, reusable UI component''
      | Some p \<Rightarrow> if p \<noteq> [] then p else ''Create a beautiful, reusable UI component'')"

definition generationScript :: "string option \<Rightarrow> string \<Rightarrow> string" where
  "generationScript prompt componentName =
     ''const { query } = require(...); async function generateOpenComponent() { const prompt = `''
     @ prompt_or_fixed prompt
     @ '' IMPORTANT: You are creating an OpenComponent ... 2. COMPONENT TYPE: Create a ''
     @ componentType prompt
     @ '' component that: ... - ''
     @ framework prompt
     @ '' 3. FILES TO GENERATE: ... `; console.log(...Component:, ''
     @ sq @ componentName @ sq
     @ ''); ... } generateOpenComponent().catch(console.error);''"

text \<open>
  What the script does when it runs in the component directory, as far as the pipeline can
  see it. The body of its \<open>try\<close> block (the agent session, writing the log, listing the
  files) either runs through or throws; in the second case the \<open>catch\<close> block calls
  \<open>process.exit(1)\<close>. When it runs through, the script looks for the view file and the
  manifest with \<open>fs.existsSync\<close>, prints a warning if one is missing, and ends normally.
\<close>

datatype session = Session_completed | Session_threw

record script_outcome =
  script_exit :: int
  incomplete_warning :: bool

definition generation_script_run :: "session \<Rightarrow> (string \<Rightarrow> bool) \<Rightarrow> script_outcome" where
  "generation_script_run s existsSync =
     (case s of
        Session_threw \<Rightarrow> \<lparr>script_exit = 1, incomplete_warning = False\<rparr>
      | Session_completed \<Rightarrow>
          (let hasView = (existsSync ''view.js'' \<or> existsSync ''view.jsx'' \<or> existsSync ''view.ts'');
               hasPackage = existsSync ''package.json''
           in \<lparr>script_exit = 0, incomplete_warning = (\<not> hasView \<or> \<not> hasPackage)\<rparr>))"

section \<open>The pipeline\<close>

record pipeline_result =
  success :: bool
  sandboxId :: "string option"
  componentName :: string
  componentDir :: string
  componentUrl :: string
  registryUrl :: string

text \<open>Step 1: look the sandbox up by its id, or create one.\<close>

definition find_sandbox :: "provider \<Rightarrow> string \<Rightarrow> sandbox step" where
  "find_sandbox P sid =
     and_then (await Daytona_list (on_list P))
       (\<lambda>sandboxes st.
          case find (\<lambda>s. sandbox_id s = sid) sandboxes of
            None \<Rightarrow> throw (Error (''Sandbox '' @ sid @ '' not found'')) (st\<lparr>var_sandbox := None\<rparr>)
          | Some s \<Rightarrow> yield s (st\<lparr>var_sandbox := Some s\<rparr>))"

definition create_sandbox :: "provider \<Rightarrow> sandbox step" where
  "create_sandbox P =
     and_then (await (Daytona_create True ''node:20'') (\<lambda>cs. on_create P cs True ''node:20''))
       (\<lambda>s st. yield s (st\<lparr>var_sandbox := Some s, var_sandboxId := Some (sandbox_id s)\<rparr>))"

definition step1_sandbox :: "provider \<Rightarrow> sandbox step" where
  "step1_sandbox P st =
     (case var_sandboxId st of
        None \<Rightarrow> create_sandbox P st
      | Some sid \<Rightarrow> if sid \<noteq> [] then find_sandbox P sid st else create_sandbox P st)"

definition getUserRootDir :: "provider \<Rightarrow> sandbox \<Rightarrow> string step" where
  "getUserRootDir P sb =
     await (Sandbox_getUserRootDir (sandbox_id sb)) (\<lambda>cs. on_getUserRootDir P cs (sandbox_id sb))"

text \<open>Step 2: the exit code of the first install is tested, the second install is only awaited.\<close>

definition step2_install :: "provider \<Rightarrow> sandbox \<Rightarrow> string \<Rightarrow> unit step" where
  "step2_install P sb rootDir =
     and_then (executeCommand P sb ''npm install -g oc'' rootDir None (Some 180000))
       (\<lambda>installOc.
          if exitCode installOc \<noteq> 0 then throw (Error ''Failed to install OpenComponents CLI'')
          else and_then
                 (executeCommand P sb ''npm install @anthropic-ai/claude-code@latest'' rootDir None
                    (Some 180000))
                 (\<lambda>_. yield ()))"

definition step3_name :: "string option \<Rightarrow> string step" where
  "step3_name prompt st =
     yield (deriveComponentName prompt) (st\<lparr>var_componentName := deriveComponentName prompt\<rparr>)"

definition step4_init :: "provider \<Rightarrow> sandbox \<Rightarrow> string \<Rightarrow> string \<Rightarrow> unit step" where
  "step4_init P sb rootDir name =
     and_then (executeCommand P sb (''oc init '' @ name) rootDir None None)
       (\<lambda>initResult.
          if exitCode initResult \<noteq> 0 then throw (Error ''Failed to initialize OpenComponent'')
          else yield ())"

definition step5_write_script ::
  "provider \<Rightarrow> sandbox \<Rightarrow> string \<Rightarrow> string option \<Rightarrow> string \<Rightarrow> unit step" where
  "step5_write_script P sb dir prompt name =
     and_then
       (executeCommand P sb
          (''cat > generate-component.js << '' @ sq @ ''SCRIPT_EOF'' @ sq @ nl
             @ generationScript prompt name @ nl @ ''SCRIPT_EOF'')
          dir None None)
       (\<lambda>_. yield ())"

definition step6_generate ::
  "provider \<Rightarrow> process_env \<Rightarrow> sandbox \<Rightarrow> string \<Rightarrow> string \<Rightarrow> unit step" where
  "step6_generate P env sb rootDir dir =
     and_then
       (executeCommand P sb ''node generate-component.js'' dir
          (Some [(''ANTHROPIC_API_KEY'', ANTHROPIC_API_KEY env),
                 (''NODE_PATH'', Some (rootDir @ ''/node_modules''))])
          (Some 600000))
       (\<lambda>genResult.
          if exitCode genResult \<noteq> 0 then throw (Error ''Component generation failed'')
          else yield ())"

definition step7_validate :: "provider \<Rightarrow> sandbox \<Rightarrow> string \<Rightarrow> unit step" where
  "step7_validate P sb dir =
     and_then
       (executeCommand P sb
          (''ls -la && echo '' @ sq @ ''---'' @ sq @ '' && cat package.json | head -10'')
          dir None None)
       (\<lambda>_. yield ())"

definition step8_build :: "provider \<Rightarrow> sandbox \<Rightarrow> string \<Rightarrow> unit step" where
  "step8_build P sb dir =
     and_then (executeCommand P sb ''oc build .'' dir None (Some 180000))
       (\<lambda>buildResult.
          if exitCode buildResult \<noteq> 0
          then and_then (executeCommand P sb ''oc build . --verbose'' dir None None)
                 (\<lambda>_. throw (Error ''Component build failed''))
          else yield ())"

definition step9_publish :: "provider \<Rightarrow> sandbox \<Rightarrow> string \<Rightarrow> unit step" where
  "step9_publish P sb dir =
     and_then (executeCommand P sb (''oc publish . '' @ REGISTRY_URL) dir None (Some 180000))
       (\<lambda>publishResult.
          if exitCode publishResult \<noteq> 0
          then and_then
                 (executeCommand P sb
                    (''curl -f '' @ REGISTRY_URL @ '' || echo '' @ sq @ ''Registry not accessible'' @ sq)
                    dir None None)
                 (\<lambda>_. throw (Error ''Component publish failed - check if registry is running''))
          else yield ())"

definition step10_info :: "provider \<Rightarrow> sandbox \<Rightarrow> string \<Rightarrow> string \<Rightarrow> pipeline_result step" where
  "step10_info P sb dir name =
     and_then
       (executeCommand P sb
          (''curl -f '' @ dq @ REGISTRY_URL @ name @ dq @ '' -H '' @ dq @ ''Accept: application/json'' @ dq
             @ '' || echo '' @ sq @ ''Component not accessible'' @ sq)
          dir None None)
       (\<lambda>_ st.
          yield \<lparr>success = True, sandboxId = var_sandboxId st, componentName = name,
                 componentDir = dir, componentUrl = REGISTRY_URL @ name,
                 registryUrl = REGISTRY_URL\<rparr> st)"

text \<open>The body of the \<open>try\<close> block.\<close>

definition try_block :: "provider \<Rightarrow> process_env \<Rightarrow> string option \<Rightarrow> pipeline_result step" where
  "try_block P env prompt =
     and_then (step1_sandbox P) (\<lambda>sb.
     and_then (getUserRootDir P sb) (\<lambda>rootDir.
     and_then (step2_install P sb rootDir) (\<lambda>_.
     and_then (step3_name prompt) (\<lambda>name.
     and_then (step4_init P sb rootDir name) (\<lambda>_.
     and_then (step5_write_script P sb (rootDir @ ''/'' @ name) prompt name) (\<lambda>_.
     and_then (step6_generate P env sb rootDir (rootDir @ ''/'' @ name)) (\<lambda>_.
     and_then (step7_validate P sb (rootDir @ ''/'' @ name)) (\<lambda>_.
     and_then (step8_build P sb (rootDir @ ''/'' @ name)) (\<lambda>_.
     and_then (step9_publish P sb (rootDir @ ''/'' @ name)) (\<lambda>_.
     step10_info P sb (rootDir @ ''/'' @ name) name))))))))))"

text \<open>
  The \<open>catch\<close> block prints the error and, if a sandbox is there, tries to fetch debug
  information with one more \<open>executeCommand\<close>, inside a \<open>try\<close> of its own whose \<open>catch\<close>
  ignores every error. The second argument of that call is \<open>rootDir\<close>, a \<open>const\<close> declared
  inside the outer \<open>try\<close> block and so not in scope in the \<open>catch\<close> block: evaluating
  the argument raises a ReferenceError before the call is made, and the inner \<open>catch\<close>
  swallows it. So the debug step makes no call. Then the error is thrown again.
\<close>

definition catch_scope_rootDir :: "string option" where
  "catch_scope_rootDir = None"

definition debug_info :: "provider \<Rightarrow> sandbox \<Rightarrow> string \<Rightarrow> state \<Rightarrow> state" where
  "debug_info P sb name st =
     (case catch_scope_rootDir of
        None \<Rightarrow> st
      | Some rootDir \<Rightarrow>
          snd (executeCommand P sb
                 (''pwd && echo '' @ sq @ ''---'' @ sq @ '' && ls -la && echo '' @ sq @ ''---'' @ sq
                    @ '' && ls -la '' @ name @ '' 2>/dev/null || echo '' @ sq @ ''No component dir'' @ sq)
                 rootDir None None st))"

definition catch_block :: "provider \<Rightarrow> error \<Rightarrow> 'a step" where
  "catch_block P e st =
     (case var_sandbox st of
        Some sb \<Rightarrow> throw e (debug_info P sb (var_componentName st) st)
      | None \<Rightarrow> throw e st)"

text \<open>The variables when the \<open>try\<close> block is entered; no call has been made.\<close>

definition initial_state :: "string option \<Rightarrow> state" where
  "initial_state sandboxIdArg =
     \<lparr>var_sandbox = None, var_sandboxId = sandboxIdArg, var_componentName = [], calls = []\<rparr>"

text \<open>How a function ends: it returns, it throws, or the process exits inside it.\<close>

datatype 'a completion = Returned 'a | Threw error | Exited int

definition generateOpenComponentInDaytona ::
  "provider \<Rightarrow> process_env \<Rightarrow> string option \<Rightarrow> string option
     \<Rightarrow> pipeline_result completion \<times> call list" where
  "generateOpenComponentInDaytona P env sandboxIdArg prompt =
     (if \<not> truthy (DAYTONA_API_KEY env) \<or> \<not> truthy (ANTHROPIC_API_KEY env)
      then (Exited 1, [Process_exit 1])
      else
        (case try_block P env prompt (initial_state sandboxIdArg) of
           (Inr r, st) \<Rightarrow> (Returned r, calls st)
         | (Inl e, st) \<Rightarrow>
             (case catch_block P e st of
                (Inl e', st') \<Rightarrow> (Threw e', calls st')
              | (Inr r, st') \<Rightarrow> (Returned r, calls st'))))"

text \<open>\<open>main\<close> parses the arguments and runs the pipeline; an error ends the process with
  exit code 1.\<close>

definition main :: "provider \<Rightarrow> process_env \<Rightarrow> string list \<Rightarrow> unit completion \<times> call list" where
  "main P env args =
     (case parse_args args of
        (sid, prompt) \<Rightarrow>
          (case generateOpenComponentInDaytona P env sid (Some prompt) of
             (Returned r, cs) \<Rightarrow> (Returned (), cs)
           | (Threw e, cs) \<Rightarrow> (Exited 1, cs @ [Process_exit 1])
           | (Exited n, cs) \<Rightarrow> (Exited n, cs)))"

text \<open>
  The SIGINT handler prints a line and calls \<open>process.exit(0)\<close>. A run that is interrupted
  after its first \<open>n\<close> calls has made those calls and then this one.
\<close>

definition sigint_handler :: "call list \<Rightarrow> unit completion \<times> call list" where
  "sigint_handler cs = (Exited 0, cs @ [Process_exit 0])"

definition interrupted_main ::
  "provider \<Rightarrow> process_env \<Rightarrow> string list \<Rightarrow> nat \<Rightarrow> unit completion \<times> call list" where
  "interrupted_main P env args n = sigint_handler (take n (snd (main P env args)))"

section \<open>Notions used in the statements\<close>

text \<open>The characters a component name may consist of.\<close>

definition slug_char :: "char \<Rightarrow> bool" where
  "slug_char c = (is_lower c \<or> is_digit c \<or> is_hyphen c)"

text \<open>A process environment with both keys, and providers for concrete runs: one that
  answers every call with success, and variants that answer one command differently.\<close>

definition env0 :: process_env where
  "env0 = \<lparr>DAYTONA_API_KEY = Some ''dtn-key'', ANTHROPIC_API_KEY = Some ''sk-ant-key''\<rparr>"

definition all_ok :: provider where
  "all_ok =
     \<lparr>on_list = (\<lambda>cs. Resolved [\<lparr>sandbox_id = ''0a1b2c3d-0000-4000-8000-000000000001''\<rparr>]),
      on_create = (\<lambda>cs pub img. Resolved \<lparr>sandbox_id = ''sandbox-1''\<rparr>),
      on_getUserRootDir = (\<lambda>cs sid. Resolved ''/home/daytona''),
      on_executeCommand = (\<lambda>cs sid cmd cwd env t. Resolved \<lparr>exitCode = 0, result = []\<rparr>)\<rparr>"

definition answering :: "string \<Rightarrow> execute_response \<Rightarrow> provider \<Rightarrow> provider" where
  "answering command r P =
     P\<lparr>on_executeCommand :=
         (\<lambda>cs sid cmd cwd env t.
            if cmd = command then Resolved r else on_executeCommand P cs sid cmd cwd env t)\<rparr>"

text \<open>
  Reasoning about a chain of steps. \<open>appends Q f\<close>: whatever the state, step \<open>f\<close> only
  appends calls to the record of calls, and each call it appends satisfies \<open>Q\<close>.
  \<open>triple pre f post fail\<close>: from a state that satisfies \<open>pre\<close>, step \<open>f\<close> ends in a state
  that satisfies \<open>post\<close> (with its value) if it yields and \<open>fail\<close> (with its error) if it
  throws.
\<close>

definition appends :: "(call \<Rightarrow> bool) \<Rightarrow> 'a step \<Rightarrow> bool" where
  "appends Q f = (\<forall>st. \<exists>new. calls (snd (f st)) = calls st @ new \<and> list_all Q new)"

definition triple ::
  "(state \<Rightarrow> bool) \<Rightarrow> 'a step \<Rightarrow> ('a \<Rightarrow> state \<Rightarrow> bool) \<Rightarrow> (error \<Rightarrow> state \<Rightarrow> bool) \<Rightarrow> bool" where
  "triple pre f post fail =
     (\<forall>st. pre st \<longrightarrow> (case f st of (Inl e, st') \<Rightarrow> fail e st' | (Inr a, st') \<Rightarrow> post a st'))"

text \<open>The command of a call, if it is a remote command.\<close>

definition command_of :: "call \<Rightarrow> string option" where
  "command_of c = (case c of Sandbox_executeCommand sid cmd cwd env t \<Rightarrow> Some cmd | _ \<Rightarrow> None)"

text \<open>A call that ends a sandbox.\<close>

definition tears_down :: "call \<Rightarrow> bool" where
  "tears_down c = (case c of Sandbox_stop sid \<Rightarrow> True | Sandbox_delete sid \<Rightarrow> True | _ \<Rightarrow> False)"

text \<open>The remote commands of the pipeline with the timeout each is called with, and the
  calls of the pipeline.\<close>

inductive pipeline_command :: "string \<Rightarrow> nat option \<Rightarrow> bool" where
  install_oc: "pipeline_command ''npm install -g oc'' (Some 180000)"
| install_sdk: "pipeline_command ''npm install @anthropic-ai/claude-code@latest'' (Some 180000)"
| init: "pipeline_command (''oc init '' @ name) None"
| write_script:
    "pipeline_command
       (''cat > generate-component.js << '' @ sq @ ''SCRIPT_EOF'' @ sq @ nl @ script @ nl @ ''SCRIPT_EOF'')
       None"
| generate: "pipeline_command ''node generate-component.js'' (Some 600000)"
| list_files:
    "pipeline_command
       (''ls -la && echo '' @ sq @ ''---'' @ sq @ '' && cat package.json | head -10'') None"
| build: "pipeline_command ''oc build .'' (Some 180000)"
| build_verbose: "pipeline_command ''oc build . --verbose'' None"
| publish: "pipeline_command (''oc publish . '' @ REGISTRY_URL) (Some 180000)"
| probe_registry:
    "pipeline_command
       (''curl -f '' @ REGISTRY_URL @ '' || echo '' @ sq @ ''Registry not accessible'' @ sq) None"
| probe_component:
    "pipeline_command
       (''curl -f '' @ dq @ REGISTRY_URL @ name @ dq @ '' -H '' @ dq @ ''Accept: application/json'' @ dq
          @ '' || echo '' @ sq @ ''Component not accessible'' @ sq)
       None"

inductive issued :: "call \<Rightarrow> bool" where
  list: "issued Daytona_list"
| create: "issued (Daytona_create True ''node:20'')"
| root_dir: "issued (Sandbox_getUserRootDir sid)"
| command: "pipeline_command cmd t \<Longrightarrow> issued (Sandbox_executeCommand sid cmd cwd env t)"

text \<open>A call that carries a timeout, if it is a remote command.\<close>

definition has_timeout :: "call \<Rightarrow> bool" where
  "has_timeout c = (case c of Sandbox_executeCommand sid cmd cwd env t \<Rightarrow> t \<noteq> None | _ \<Rightarrow> True)"

text \<open>The first call of a run creates a sandbox and no call lists the sandboxes.\<close>

definition created_first :: "call list \<Rightarrow> bool" where
  "created_first cs =
     ((case cs of [] \<Rightarrow> False | c # rest \<Rightarrow> c = Daytona_create True ''node:20'')
      \<and> Daytona_list \<notin> set cs)"

text \<open>The result of a successful run for a given component name.\<close>

definition result_for :: "string \<Rightarrow> pipeline_result \<Rightarrow> bool" where
  "result_for name r =
     (success r \<and> componentName r = name \<and> componentUrl r = REGISTRY_URL @ name
      \<and> registryUrl r = REGISTRY_URL)"

text \<open>No call so far runs the given command.\<close>

definition no_command :: "string \<Rightarrow> call list \<Rightarrow> bool" where
  "no_command cmd cs = list_all (\<lambda>c. command_of c \<noteq> Some cmd) cs"

text \<open>Among the calls is the generation command, and the provider answered it, after the
  calls before it, with exit code 0.\<close>

definition generation_returned_0 :: "provider \<Rightarrow> call list \<Rightarrow> bool" where
  "generation_returned_0 P cs =
     (\<exists>pre post sb dir env r.
        cs = pre @ Sandbox_executeCommand sb ''node generate-component.js'' dir env (Some 600000) # post
        \<and> on_executeCommand P pre sb ''node generate-component.js'' dir env (Some 600000) = Resolved r
        \<and> exitCode r = 0)"

definition build_justified :: "provider \<Rightarrow> call list \<Rightarrow> bool" where
  "build_justified P cs = (no_command ''oc build .'' cs \<or> generation_returned_0 P cs)"

text \<open>A component directory in which the manifest exists and no view file does, and a
  provider for it: the generation command ends as the generation script does there, and
  the build fails.\<close>

definition no_view_file :: "string \<Rightarrow> bool" where
  "no_view_file f = (f = ''package.json'')"

definition incomplete_artifact :: provider where
  "incomplete_artifact =
     answering ''node generate-component.js''
       \<lparr>exitCode = script_exit (generation_script_run Session_completed no_view_file),
        result = ''Component structure incomplete!''\<rparr>
       (answering ''oc build .'' \<lparr>exitCode = 1, result = ''missing view''\<rparr> all_ok)"

text \<open>The publish call and the probe of the registry that follows a failed publish.\<close>

definition publish_call :: "string \<Rightarrow> string \<Rightarrow> call" where
  "publish_call sb dir =
     Sandbox_executeCommand sb (''oc publish . '' @ REGISTRY_URL) dir None (Some 180000)"

definition probe_call :: "string \<Rightarrow> string \<Rightarrow> call" where
  "probe_call sb dir =
     Sandbox_executeCommand sb
       (''curl -f '' @ REGISTRY_URL @ '' || echo '' @ sq @ ''Registry not accessible'' @ sq)
       dir None None"

definition publish_error :: error where
  "publish_error = Error ''Component publish failed - check if registry is running''"

text \<open>Every failed publish among the calls is followed by the probe and nothing else, and
  the outcome is the publish error, or the probe's own error if the probe call rejects.\<close>

definition publish_failures_probed ::
  "provider \<Rightarrow> error + pipeline_result \<Rightarrow> call list \<Rightarrow> bool" where
  "publish_failures_probed P res cs =
     (\<forall>pre post sb dir r.
        cs = pre @ publish_call sb dir # post
        \<and> on_executeCommand P pre sb (''oc publish . '' @ REGISTRY_URL) dir None (Some 180000)
            = Resolved r
        \<and> exitCode r \<noteq> 0
        \<longrightarrow> post = [probe_call sb dir]
            \<and> (case on_executeCommand P (pre @ [publish_call sb dir]) sb
                       (''curl -f '' @ REGISTRY_URL @ '' || echo '' @ sq @ ''Registry not accessible'' @ sq)
                       dir None None of
                 Resolved a \<Rightarrow> res = Inl publish_error
               | Rejected e \<Rightarrow> res = Inl e))"

text \<open>Two providers whose publish fails: at the first the registry cannot be reached, at
  the second it answers the probe and has rejected the artifact. The probe command ends
  with \<open>|| echo ...\<close>, so its exit code is 0 in both.\<close>

definition registry_unreachable :: provider where
  "registry_unreachable =
     answering (''oc publish . '' @ REGISTRY_URL) \<lparr>exitCode = 1, result = ''connect ECONNREFUSED''\<rparr>
       (answering (''curl -f '' @ REGISTRY_URL @ '' || echo '' @ sq @ ''Registry not accessible'' @ sq)
          \<lparr>exitCode = 0, result = ''Registry not accessible''\<rparr> all_ok)"

definition registry_rejects :: provider where
  "registry_rejects =
     answering (''oc publish . '' @ REGISTRY_URL) \<lparr>exitCode = 1, result = ''version already exists''\<rparr>
       (answering (''curl -f '' @ REGISTRY_URL @ '' || echo '' @ sq @ ''Registry not accessible'' @ sq)
          \<lparr>exitCode = 0, result = ''registry index''\<rparr> all_ok)"

section \<open>Properties of the component name\<close>

lemma remove_special_chars:
  "c \<in> set (remove_special s) \<Longrightarrow> slug_char c \<or> is_space c"
  by (auto simp: remove_special_def slug_char_def)

lemma spaces_to_hyphens_chars:
  "c \<in> set (spaces_to_hyphens s) \<Longrightarrow> (c \<in> set s \<and> \<not> is_space c) \<or> is_hyphen c"
proof (induction s rule: spaces_to_hyphens.induct)
  case 1
  then show ?case by simp
next
  case (2 d ds)
  show ?case
  proof (cases "is_space d")
    case True
    with "2.prems" have "c = CHR ''-'' \<or> c \<in> set (spaces_to_hyphens (dropWhile is_space ds))"
      by simp
    then show ?thesis
    proof
      assume "c = CHR ''-''"
      then show ?thesis by (simp add: is_hyphen_def)
    next
      assume "c \<in> set (spaces_to_hyphens (dropWhile is_space ds))"
      with "2.IH"(1) True have "(c \<in> set (dropWhile is_space ds) \<and> \<not> is_space c) \<or> is_hyphen c"
        by blast
      then show ?thesis
        using set_dropWhileD [of c is_space ds] by auto
    qed
  next
    case False
    with "2.prems" have "c = d \<or> c \<in> set (spaces_to_hyphens ds)"
      by simp
    then show ?thesis
    proof
      assume "c = d"
      with False show ?thesis by simp
    next
      assume "c \<in> set (spaces_to_hyphens ds)"
      with "2.IH"(2) False have "(c \<in> set ds \<and> \<not> is_space c) \<or> is_hyphen c"
        by blast
      then show ?thesis by auto
    qed
  qed
qed

lemma trim_hyphens_subset: "c \<in> set (trim_hyphens s) \<Longrightarrow> c \<in> set s"
proof -
  assume "c \<in> set (trim_hyphens s)"
  then have "c \<in> set (dropWhile is_hyphen (rev (dropWhile is_hyphen s)))"
    by (simp add: trim_hyphens_def)
  then have "c \<in> set (rev (dropWhile is_hyphen s))"
    by (rule set_dropWhileD)
  then have "c \<in> set (dropWhile is_hyphen s)"
    by simp
  then show "c \<in> set s"
    by (rule set_dropWhileD)
qed

lemma trim_hyphens_length: "length (trim_hyphens s) \<le> length s"
proof -
  have "length (dropWhile is_hyphen (rev (dropWhile is_hyphen s))) \<le> length (rev (dropWhile is_hyphen s))"
    by (rule length_dropWhile_le)
  moreover have "length (dropWhile is_hyphen s) \<le> length s"
    by (rule length_dropWhile_le)
  ultimately show ?thesis
    by (simp add: trim_hyphens_def)
qed

lemma slug_chars: "c \<in> set (slug p) \<Longrightarrow> slug_char c"
proof -
  assume "c \<in> set (slug p)"
  then have "c \<in> set (substring_0_30 (spaces_to_hyphens (remove_special (toLowerCase p))))"
    unfolding slug_def by (rule trim_hyphens_subset)
  then have "c \<in> set (spaces_to_hyphens (remove_special (toLowerCase p)))"
    unfolding substring_0_30_def by (rule in_set_takeD)
  then have "(c \<in> set (remove_special (toLowerCase p)) \<and> \<not> is_space c) \<or> is_hyphen c"
    by (rule spaces_to_hyphens_chars)
  then show "slug_char c"
    using remove_special_chars by (auto simp: slug_char_def)
qed

lemma slug_length: "length (slug p) \<le> 30"
proof -
  have "length (slug p) \<le> length (substring_0_30 (spaces_to_hyphens (remove_special (toLowerCase p))))"
    unfolding slug_def by (rule trim_hyphens_length)
  also have "\<dots> \<le> 30"
    by (simp add: substring_0_30_def)
  finally show ?thesis .
qed

lemma default_name_all: "list_all slug_char ''generated-component''"
  by code_simp

lemma default_name_chars: "c \<in> set ''generated-component'' \<Longrightarrow> slug_char c"
  using default_name_all unfolding list_all_iff by blast

lemma slug_Nil: "slug [] = []"
  by (simp add: slug_def toLowerCase_def remove_special_def substring_0_30_def trim_hyphens_def)

lemma deriveComponentName_Some:
  "deriveComponentName (Some p) = (if slug p = [] then ''generated-component'' else slug p)"
proof (cases "p = []")
  case True
  then show ?thesis
    by (simp add: deriveComponentName_def defaultComponentName_def slug_Nil)
next
  case False
  then have "defaultComponentName (Some p) = slug p"
    by (simp add: defaultComponentName_def slug_def)
  then show ?thesis
    by (simp add: deriveComponentName_def)
qed

lemma deriveComponentName_None: "deriveComponentName None = ''generated-component''"
  by (simp add: deriveComponentName_def defaultComponentName_def)

lemma deriveComponentName_chars:
  assumes "c \<in> set (deriveComponentName prompt)"
  shows "slug_char c"
proof (cases prompt)
  case None
  with assms have "c \<in> set ''generated-component''"
    by (simp only: deriveComponentName_None)
  then show ?thesis by (rule default_name_chars)
next
  case (Some p)
  show ?thesis
  proof (cases "slug p = []")
    case True
    with Some have "deriveComponentName prompt = ''generated-component''"
      by (simp add: deriveComponentName_Some)
    with assms have "c \<in> set ''generated-component''"
      by (simp only:)
    then show ?thesis by (rule default_name_chars)
  next
    case False
    with Some have "deriveComponentName prompt = slug p"
      by (simp add: deriveComponentName_Some)
    with assms have "c \<in> set (slug p)"
      by (simp only:)
    then show ?thesis by (rule slug_chars)
  qed
qed

lemma deriveComponentName_length: "length (deriveComponentName prompt) \<le> 30"
proof (cases prompt)
  case None
  then show ?thesis by (simp add: deriveComponentName_None)
next
  case (Some p)
  then show ?thesis
    using slug_length [of p] by (simp add: deriveComponentName_Some)
qed

lemma deriveComponentName_nonempty: "deriveComponentName prompt \<noteq> []"
  by (cases prompt) (simp_all add: deriveComponentName_None deriveComponentName_Some)

text \<open>
  C2. For every prompt, also an absent one, the component name consists of lower-case
  letters, digits and hyphens only, has at most 30 characters and is not empty. It is the
  fixed name \<open>generated-component\<close> when no prompt is given and whenever the chain of
  lowering, stripping, hyphenating, truncating and trimming leaves nothing; otherwise it
  is what the chain leaves.
\<close>

theorem componentName_wellformed:
  "(\<forall>c \<in> set (deriveComponentName prompt). is_lower c \<or> is_digit c \<or> c = CHR ''-'')
   \<and> length (deriveComponentName prompt) \<le> 30
   \<and> deriveComponentName prompt \<noteq> []
   \<and> deriveComponentName None = ''generated-component''
   \<and> (\<forall>p. prompt = Some p \<longrightarrow>
        deriveComponentName prompt = (if slug p = [] then ''generated-component'' else slug p))"
proof -
  have chars: "\<forall>c \<in> set (deriveComponentName prompt). is_lower c \<or> is_digit c \<or> c = CHR ''-''"
    using deriveComponentName_chars [of _ prompt] unfolding slug_char_def is_hyphen_def by blast
  have some: "\<forall>p. prompt = Some p \<longrightarrow>
        deriveComponentName prompt = (if slug p = [] then ''generated-component'' else slug p)"
    using deriveComponentName_Some by blast
  from chars deriveComponentName_length deriveComponentName_nonempty deriveComponentName_None some
  show ?thesis by blast
qed

theorem componentName_wellformed_witness:
  "slug ''!!!'' = [] \<and> deriveComponentName (Some ''!!!'') = ''generated-component''
   \<and> length (deriveComponentName (Some ''!!!'')) \<le> 30
   \<and> list_all slug_char (deriveComponentName (Some ''!!!''))"
proof -
  have e: "slug ''!!!'' = []" by code_simp
  from componentName_wellformed [of "Some ''!!!''"] e show ?thesis
    by (simp add: list_all_iff slug_char_def is_hyphen_def)
qed

section \<open>The entry point\<close>

lemma or_default_prompt_nonempty: "or_default_prompt prompt \<noteq> []"
  by (cases prompt) (simp_all add: or_default_prompt_def default_prompt_def)

lemma hex_groups_step:
  "hex_groups (n # m # ms) s \<longleftrightarrow>
     (\<exists>g rest. s = g @ CHR ''-'' # rest \<and> length g = n \<and> list_all is_hex g
        \<and> hex_groups (m # ms) rest)"
proof
  assume h: "hex_groups (n # m # ms) s"
  then obtain d rest where dr: "drop n s = d # rest" "is_hyphen d" "hex_groups (m # ms) rest"
    by (auto split: list.splits)
  from h have t: "list_all is_hex (take n s)" "length (take n s) = n"
    by simp_all
  have "s = take n s @ drop n s"
    by simp
  with dr have "s = take n s @ CHR ''-'' # rest"
    by (simp add: is_hyphen_def)
  with t dr(3) show "\<exists>g rest. s = g @ CHR ''-'' # rest \<and> length g = n \<and> list_all is_hex g
        \<and> hex_groups (m # ms) rest"
    by blast
next
  assume "\<exists>g rest. s = g @ CHR ''-'' # rest \<and> length g = n \<and> list_all is_hex g
        \<and> hex_groups (m # ms) rest"
  then show "hex_groups (n # m # ms) s"
    by (auto simp: is_hyphen_def)
qed

lemma uuid_shape:
  "uuidRegex_test s \<longleftrightarrow>
     (\<exists>g1 g2 g3 g4 g5.
        s = g1 @ ''-'' @ g2 @ ''-'' @ g3 @ ''-'' @ g4 @ ''-'' @ g5
        \<and> length g1 = 8 \<and> length g2 = 4 \<and> length g3 = 4 \<and> length g4 = 4 \<and> length g5 = 12
        \<and> list_all is_hex (g1 @ g2 @ g3 @ g4 @ g5))"
  unfolding uuidRegex_test_def hex_groups_step hex_groups.simps(2)
  by (simp, blast)

text \<open>
  C9. If the first argument has the shape of a UUID (five groups of 8, 4, 4, 4 and 12
  hexadecimal digits of either case, joined by hyphens, and nothing else), it is the
  sandbox id and the other arguments, joined by single spaces, are the prompt; if not, no
  sandbox id is set and all arguments joined are the prompt; without arguments neither
  is set. An empty prompt is replaced by the fixed default prompt, so the prompt handed
  on is never empty.
\<close>

theorem parse_args_spec:
  "(uuidRegex_test a \<longrightarrow>
      parse_args (a # rest) =
        (Some a, if join_spaces rest = [] then default_prompt else join_spaces rest))
   \<and> (\<not> uuidRegex_test a \<longrightarrow>
      parse_args (a # rest) =
        (None, if join_spaces (a # rest) = [] then default_prompt else join_spaces (a # rest)))
   \<and> parse_args [] = (None, default_prompt)
   \<and> snd (parse_args args) \<noteq> []
   \<and> (uuidRegex_test a \<longleftrightarrow>
        (\<exists>g1 g2 g3 g4 g5.
           a = g1 @ ''-'' @ g2 @ ''-'' @ g3 @ ''-'' @ g4 @ ''-'' @ g5
           \<and> length g1 = 8 \<and> length g2 = 4 \<and> length g3 = 4 \<and> length g4 = 4 \<and> length g5 = 12
           \<and> list_all is_hex (g1 @ g2 @ g3 @ g4 @ g5)))"
proof -
  have nonempty: "snd (parse_args args) \<noteq> []"
    by (cases args) (simp_all add: parse_args_def or_default_prompt_nonempty)
  have parsed: "(uuidRegex_test a \<longrightarrow>
      parse_args (a # rest) =
        (Some a, if join_spaces rest = [] then default_prompt else join_spaces rest))
   \<and> (\<not> uuidRegex_test a \<longrightarrow>
      parse_args (a # rest) =
        (None, if join_spaces (a # rest) = [] then default_prompt else join_spaces (a # rest)))
   \<and> parse_args [] = (None, default_prompt)"
    by (simp add: parse_args_def or_default_prompt_def)
  from parsed nonempty uuid_shape [of a] show ?thesis
    by blast
qed

theorem parse_args_spec_witness:
  "uuidRegex_test ''123E4567-e89b-12d3-a456-426614174000''
   \<and> parse_args [''123E4567-e89b-12d3-a456-426614174000'', ''red'', ''button'']
       = (Some ''123E4567-e89b-12d3-a456-426614174000'', ''red button'')
   \<and> parse_args [''123E4567-e89b-12d3-a456-426614174000'']
       = (Some ''123E4567-e89b-12d3-a456-426614174000'', default_prompt)
   \<and> \<not> uuidRegex_test ''123e4567-e89b-12d3-a456''
   \<and> parse_args [''123e4567-e89b-12d3-a456'', ''card'']
       = (None, ''123e4567-e89b-12d3-a456 card'')"
proof -
  have u: "uuidRegex_test ''123E4567-e89b-12d3-a456-426614174000''"
    by code_simp
  have n: "\<not> uuidRegex_test ''123e4567-e89b-12d3-a456''"
    by code_simp
  from u n
    parse_args_spec [of "''123E4567-e89b-12d3-a456-426614174000''" "[''red'', ''button'']",
      THEN conjunct1]
    parse_args_spec [of "''123E4567-e89b-12d3-a456-426614174000''" "[]", THEN conjunct1]
    parse_args_spec [of "''123e4567-e89b-12d3-a456''" "[''card'']", THEN conjunct2, THEN conjunct1]
  show ?thesis by simp
qed

section \<open>Runs that end before the first step\<close>

text \<open>
  C10. If \<open>DAYTONA_API_KEY\<close> or \<open>ANTHROPIC_API_KEY\<close> is unset, the pipeline ends the
  process with exit code 1 and that is the only call of the run: nothing is listed,
  created or run in a sandbox. The same holds for \<open>main\<close>, whatever its arguments.
\<close>

theorem missing_api_key_exits:
  "DAYTONA_API_KEY env = None \<or> ANTHROPIC_API_KEY env = None \<Longrightarrow>
     generateOpenComponentInDaytona P env sid prompt = (Exited 1, [Process_exit 1])
     \<and> main P env args = (Exited 1, [Process_exit 1])"
proof -
  assume unset: "DAYTONA_API_KEY env = None \<or> ANTHROPIC_API_KEY env = None"
  then have falsy: "\<not> truthy (DAYTONA_API_KEY env) \<or> \<not> truthy (ANTHROPIC_API_KEY env)"
    by (auto simp: truthy_def)
  then have run: "\<And>s p. generateOpenComponentInDaytona P env s p = (Exited 1, [Process_exit 1])"
    by (simp add: generateOpenComponentInDaytona_def)
  then show ?thesis
    by (simp add: main_def split: prod.splits)
qed

theorem missing_api_key_exits_witness:
  "ANTHROPIC_API_KEY \<lparr>DAYTONA_API_KEY = Some ''dtn-key'', ANTHROPIC_API_KEY = None\<rparr> = None
   \<and> generateOpenComponentInDaytona all_ok
        \<lparr>DAYTONA_API_KEY = Some ''dtn-key'', ANTHROPIC_API_KEY = None\<rparr> None (Some ''a card'')
       = (Exited 1, [Process_exit 1])
   \<and> main all_ok \<lparr>DAYTONA_API_KEY = Some ''dtn-key'', ANTHROPIC_API_KEY = None\<rparr> [''a'', ''card'']
       = (Exited 1, [Process_exit 1])"
  using missing_api_key_exits
    [of "\<lparr>DAYTONA_API_KEY = Some ''dtn-key'', ANTHROPIC_API_KEY = None\<rparr>" all_ok None
        "Some ''a card''" "[''a'', ''card'']"]
  by simp

section \<open>Rules for chains of steps\<close>

lemma and_then_Inl: "f st = (Inl e, st') \<Longrightarrow> and_then f g st = (Inl e, st')"
  by (simp add: and_then_def)

lemma and_then_Inr: "f st = (Inr a, st') \<Longrightarrow> and_then f g st = g a st'"
  by (simp add: and_then_def)

lemma appends_yield: "appends Q (yield a)"
  by (simp add: appends_def yield_def)

lemma appends_throw: "appends Q (throw e)"
  by (simp add: appends_def throw_def)

lemma appends_await: "Q c \<Longrightarrow> appends Q (await c answer)"
  by (simp add: appends_def await_def split: promise.splits)

lemma appends_if: "appends Q f \<Longrightarrow> appends Q g \<Longrightarrow> appends Q (if b then f else g)"
  by simp

lemma appends_and_then:
  assumes f: "appends Q f" and g: "\<And>a. appends Q (g a)"
  shows "appends Q (and_then f g)"
  unfolding appends_def
proof
  fix st :: state
  from f obtain new1 where n1: "calls (snd (f st)) = calls st @ new1" "list_all Q new1"
    unfolding appends_def by blast
  show "\<exists>new. calls (snd (and_then f g st)) = calls st @ new \<and> list_all Q new"
  proof (cases "f st")
    case (Pair res st1)
    show ?thesis
    proof (cases res)
      case (Inl e)
      with Pair n1 show ?thesis
        by (auto simp: and_then_def)
    next
      case (Inr a)
      from g obtain new2 where n2: "calls (snd (g a st1)) = calls st1 @ new2" "list_all Q new2"
        unfolding appends_def by blast
      from Pair Inr have "and_then f g st = g a st1"
        by (simp add: and_then_def)
      with Pair n1 n2 have "calls (snd (and_then f g st)) = calls st @ (new1 @ new2)"
        by simp
      moreover from n1 n2 have "list_all Q (new1 @ new2)"
        by simp
      ultimately show ?thesis by blast
    qed
  qed
qed

lemma appends_mono:
  assumes "appends Q f" and "\<And>c. Q c \<Longrightarrow> Q' c"
  shows "appends Q' f"
  unfolding appends_def
proof
  fix st :: state
  from assms(1) obtain new where n: "calls (snd (f st)) = calls st @ new" "list_all Q new"
    unfolding appends_def by blast
  from n(2) assms(2) have "list_all Q' new"
    by (simp add: list_all_iff)
  with n(1) show "\<exists>new. calls (snd (f st)) = calls st @ new \<and> list_all Q' new"
    by blast
qed

lemma stable_append:
  assumes "\<And>cs c. J cs \<Longrightarrow> Q c \<Longrightarrow> J (cs @ [c])"
  shows "J cs \<Longrightarrow> list_all Q new \<Longrightarrow> J (cs @ new)"
proof (induction new rule: rev_induct)
  case Nil
  then show ?case by simp
next
  case (snoc c new)
  then have "J (cs @ new)" and "Q c" by simp_all
  then have "J ((cs @ new) @ [c])" by (rule assms)
  then show ?case by simp
qed

lemma triple_and_then:
  assumes "triple pre f mid fail" and "\<And>a. triple (mid a) (g a) post fail"
  shows "triple pre (and_then f g) post fail"
  unfolding triple_def
proof (intro allI impI)
  fix st :: state
  assume "pre st"
  with assms(1) have f: "case f st of (Inl e, st') \<Rightarrow> fail e st' | (Inr a, st') \<Rightarrow> mid a st'"
    by (simp add: triple_def)
  show "case and_then f g st of (Inl e, st') \<Rightarrow> fail e st' | (Inr a, st') \<Rightarrow> post a st'"
  proof (cases "f st")
    case (Pair res st1)
    show ?thesis
    proof (cases res)
      case (Inl e)
      with Pair f show ?thesis by (simp add: and_then_def)
    next
      case (Inr a)
      with Pair f have "mid a st1" by simp
      with assms(2) [of a] have "case g a st1 of (Inl e, st') \<Rightarrow> fail e st' | (Inr b, st') \<Rightarrow> post b st'"
        by (simp add: triple_def)
      with Pair Inr show ?thesis by (simp add: and_then_def)
    qed
  qed
qed

lemma triple_weaken:
  assumes "triple pre f post fail"
    and "\<And>st. pre' st \<Longrightarrow> pre st"
    and "\<And>a st. post a st \<Longrightarrow> post' a st"
    and "\<And>e st. fail e st \<Longrightarrow> fail' e st"
  shows "triple pre' f post' fail'"
  unfolding triple_def
proof (intro allI impI)
  fix st :: state
  assume "pre' st"
  then have "pre st" by (rule assms(2))
  with assms(1) have "case f st of (Inl e, st') \<Rightarrow> fail e st' | (Inr a, st') \<Rightarrow> post a st'"
    by (simp add: triple_def)
  with assms(3,4) show "case f st of (Inl e, st') \<Rightarrow> fail' e st' | (Inr a, st') \<Rightarrow> post' a st'"
    by (auto split: prod.splits sum.splits)
qed

lemma triple_appends:
  assumes "appends Q f" and "\<And>cs c. J cs \<Longrightarrow> Q c \<Longrightarrow> J (cs @ [c])"
  shows "triple (\<lambda>st. J (calls st)) f (\<lambda>a st. J (calls st)) (\<lambda>e st. J (calls st))"
  unfolding triple_def
proof (intro allI impI)
  fix st :: state
  assume "J (calls st)"
  from assms(1) obtain new where n: "calls (snd (f st)) = calls st @ new" "list_all Q new"
    unfolding appends_def by blast
  from assms(2) \<open>J (calls st)\<close> n(2) have "J (calls st @ new)"
    by (rule stable_append)
  with n(1) have "J (calls (snd (f st)))" by simp
  then show "case f st of (Inl e, st') \<Rightarrow> J (calls st') | (Inr a, st') \<Rightarrow> J (calls st')"
    by (auto split: prod.splits sum.splits)
qed

section \<open>The calls of each step\<close>

lemmas appends_intros = appends_and_then appends_await appends_yield appends_throw appends_if

lemma find_sandbox_appends: "appends (\<lambda>c. c = Daytona_list) (find_sandbox P sid)"
  unfolding find_sandbox_def
proof (rule appends_and_then)
  show "appends (\<lambda>c. c = Daytona_list) (await Daytona_list (on_list P))"
    by (rule appends_await) simp
next
  fix sandboxes
  show "appends (\<lambda>c. c = Daytona_list)
          (\<lambda>st. case find (\<lambda>s. sandbox_id s = sid) sandboxes of
                  None \<Rightarrow> throw (Error (''Sandbox '' @ sid @ '' not found'')) (st\<lparr>var_sandbox := None\<rparr>)
                | Some s \<Rightarrow> yield s (st\<lparr>var_sandbox := Some s\<rparr>))"
    by (simp add: appends_def throw_def yield_def split: option.splits)
qed

lemma create_sandbox_appends:
  "appends (\<lambda>c. c = Daytona_create True ''node:20'') (create_sandbox P)"
  unfolding create_sandbox_def
proof (rule appends_and_then)
  show "appends (\<lambda>c. c = Daytona_create True ''node:20'')
          (await (Daytona_create True ''node:20'') (\<lambda>cs. on_create P cs True ''node:20''))"
    by (rule appends_await) simp
next
  fix s
  show "appends (\<lambda>c. c = Daytona_create True ''node:20'')
          (\<lambda>st. yield s (st\<lparr>var_sandbox := Some s, var_sandboxId := Some (sandbox_id s)\<rparr>))"
    by (simp add: appends_def yield_def)
qed

lemma step1_appends:
  "appends (\<lambda>c. c = Daytona_list \<or> c = Daytona_create True ''node:20'') (step1_sandbox P)"
proof -
  have l: "appends (\<lambda>c. c = Daytona_list \<or> c = Daytona_create True ''node:20'') (find_sandbox P sid)" for sid
    by (rule appends_mono [OF find_sandbox_appends]) simp
  have c: "appends (\<lambda>c. c = Daytona_list \<or> c = Daytona_create True ''node:20'') (create_sandbox P)"
    by (rule appends_mono [OF create_sandbox_appends]) simp
  show ?thesis
    unfolding appends_def
  proof
    fix st :: state
    show "\<exists>new. calls (snd (step1_sandbox P st)) = calls st @ new
            \<and> list_all (\<lambda>c. c = Daytona_list \<or> c = Daytona_create True ''node:20'') new"
      using l c unfolding appends_def step1_sandbox_def
      by (simp split: option.splits)
  qed
qed

lemma getUserRootDir_appends:
  "appends (\<lambda>c. c = Sandbox_getUserRootDir (sandbox_id sb)) (getUserRootDir P sb)"
  unfolding getUserRootDir_def by (rule appends_await) simp

lemma step2_appends:
  "appends (\<lambda>c. c = Sandbox_executeCommand (sandbox_id sb) ''npm install -g oc'' rootDir None (Some 180000)
              \<or> c = Sandbox_executeCommand (sandbox_id sb)
                     ''npm install @anthropic-ai/claude-code@latest'' rootDir None (Some 180000))
     (step2_install P sb rootDir)"
  unfolding step2_install_def executeCommand_def
  by (intro appends_intros) simp_all

lemma step3_appends: "appends (\<lambda>c. False) (step3_name prompt)"
  by (simp add: appends_def step3_name_def yield_def)

lemma step4_appends:
  "appends (\<lambda>c. c = Sandbox_executeCommand (sandbox_id sb) (''oc init '' @ name) rootDir None None)
     (step4_init P sb rootDir name)"
  unfolding step4_init_def executeCommand_def
  by (intro appends_intros) simp_all

lemma step5_appends:
  "appends (\<lambda>c. c = Sandbox_executeCommand (sandbox_id sb)
                     (''cat > generate-component.js << '' @ sq @ ''SCRIPT_EOF'' @ sq @ nl
                        @ generationScript prompt name @ nl @ ''SCRIPT_EOF'')
                     dir None None)
     (step5_write_script P sb dir prompt name)"
  unfolding step5_write_script_def executeCommand_def
  by (intro appends_intros) simp_all

lemma step6_appends:
  "appends (\<lambda>c. c = Sandbox_executeCommand (sandbox_id sb) ''node generate-component.js'' dir
                     (Some [(''ANTHROPIC_API_KEY'', ANTHROPIC_API_KEY env),
                            (''NODE_PATH'', Some (rootDir @ ''/node_modules''))])
                     (Some 600000))
     (step6_generate P env sb rootDir dir)"
  unfolding step6_generate_def executeCommand_def
  by (intro appends_intros) simp_all

lemma step7_appends:
  "appends (\<lambda>c. c = Sandbox_executeCommand (sandbox_id sb)
                     (''ls -la && echo '' @ sq @ ''---'' @ sq @ '' && cat package.json | head -10'')
                     dir None None)
     (step7_validate P sb dir)"
  unfolding step7_validate_def executeCommand_def
  by (intro appends_intros) simp_all

lemma step8_appends:
  "appends (\<lambda>c. c = Sandbox_executeCommand (sandbox_id sb) ''oc build .'' dir None (Some 180000)
              \<or> c = Sandbox_executeCommand (sandbox_id sb) ''oc build . --verbose'' dir None None)
     (step8_build P sb dir)"
  unfolding step8_build_def executeCommand_def
  by (intro appends_intros) simp_all

lemma step9_appends:
  "appends (\<lambda>c. c = Sandbox_executeCommand (sandbox_id sb) (''oc publish . '' @ REGISTRY_URL) dir None
                     (Some 180000)
              \<or> c = Sandbox_executeCommand (sandbox_id sb)
                     (''curl -f '' @ REGISTRY_URL @ '' || echo '' @ sq @ ''Registry not accessible'' @ sq)
                     dir None None)
     (step9_publish P sb dir)"
  unfolding step9_publish_def executeCommand_def
  by (intro appends_intros) simp_all

lemma step10_appends:
  "appends (\<lambda>c. c = Sandbox_executeCommand (sandbox_id sb)
                     (''curl -f '' @ dq @ REGISTRY_URL @ name @ dq @ '' -H '' @ dq
                        @ ''Accept: application/json'' @ dq
                        @ '' || echo '' @ sq @ ''Component not accessible'' @ sq)
                     dir None None)
     (step10_info P sb dir name)"
  unfolding step10_info_def executeCommand_def
proof (rule appends_and_then)
  show "appends (\<lambda>c. c = Sandbox_executeCommand (sandbox_id sb)
                     (''curl -f '' @ dq @ REGISTRY_URL @ name @ dq @ '' -H '' @ dq
                        @ ''Accept: application/json'' @ dq
                        @ '' || echo '' @ sq @ ''Component not accessible'' @ sq)
                     dir None None)
          (await (Sandbox_executeCommand (sandbox_id sb)
                     (''curl -f '' @ dq @ REGISTRY_URL @ name @ dq @ '' -H '' @ dq
                        @ ''Accept: application/json'' @ dq
                        @ '' || echo '' @ sq @ ''Component not accessible'' @ sq)
                     dir None None)
             (\<lambda>cs. on_executeCommand P cs (sandbox_id sb)
                     (''curl -f '' @ dq @ REGISTRY_URL @ name @ dq @ '' -H '' @ dq
                        @ ''Accept: application/json'' @ dq
                        @ '' || echo '' @ sq @ ''Component not accessible'' @ sq)
                     dir None None))"
    by (rule appends_await) simp
next
  fix a :: execute_response
  show "appends (\<lambda>c. c = Sandbox_executeCommand (sandbox_id sb)
                     (''curl -f '' @ dq @ REGISTRY_URL @ name @ dq @ '' -H '' @ dq
                        @ ''Accept: application/json'' @ dq
                        @ '' || echo '' @ sq @ ''Component not accessible'' @ sq)
                     dir None None)
          (\<lambda>st. yield \<lparr>success = True, sandboxId = var_sandboxId st, componentName = name,
                 componentDir = dir, componentUrl = REGISTRY_URL @ name,
                 registryUrl = REGISTRY_URL\<rparr> st)"
    by (simp add: appends_def yield_def)
qed

section \<open>Whole runs\<close>

lemma catch_block_rethrows: "catch_block P e st = (Inl e, st)"
  by (simp add: catch_block_def debug_info_def catch_scope_rootDir_def throw_def
      split: option.splits)

lemma run_with_keys:
  assumes "truthy (DAYTONA_API_KEY env)" and "truthy (ANTHROPIC_API_KEY env)"
  shows "generateOpenComponentInDaytona P env sid prompt =
           (case try_block P env prompt (initial_state sid) of
              (Inr r, st) \<Rightarrow> (Returned r, calls st)
            | (Inl e, st) \<Rightarrow> (Threw e, calls st))"
  using assms
  by (simp add: generateOpenComponentInDaytona_def catch_block_rethrows split: prod.splits sum.splits)

lemma run_without_keys:
  assumes "\<not> (truthy (DAYTONA_API_KEY env) \<and> truthy (ANTHROPIC_API_KEY env))"
  shows "generateOpenComponentInDaytona P env sid prompt = (Exited 1, [Process_exit 1])"
  using assms by (auto simp: generateOpenComponentInDaytona_def)

lemma run_calls:
  "snd (generateOpenComponentInDaytona P env sid prompt) =
     (if truthy (DAYTONA_API_KEY env) \<and> truthy (ANTHROPIC_API_KEY env)
      then calls (snd (try_block P env prompt (initial_state sid)))
      else [Process_exit 1])"
proof (cases "truthy (DAYTONA_API_KEY env) \<and> truthy (ANTHROPIC_API_KEY env)")
  case True
  obtain res st where tb: "try_block P env prompt (initial_state sid) = (res, st)"
    by (cases "try_block P env prompt (initial_state sid)")
  with True show ?thesis
    by (cases res) (simp_all add: run_with_keys)
next
  case False
  then have "generateOpenComponentInDaytona P env sid prompt = (Exited 1, [Process_exit 1])"
    by (rule run_without_keys)
  then have "snd (generateOpenComponentInDaytona P env sid prompt) = [Process_exit 1]"
    by simp
  also from False have "[Process_exit 1] =
     (if truthy (DAYTONA_API_KEY env) \<and> truthy (ANTHROPIC_API_KEY env)
      then calls (snd (try_block P env prompt (initial_state sid)))
      else [Process_exit 1])"
    by (simp only: if_not_P if_False)
  finally show ?thesis .
qed

lemma try_block_issued: "appends issued (try_block P env prompt)"
proof -
  have s1: "appends issued (step1_sandbox P)"
    by (rule appends_mono [OF step1_appends]) ((elim disjE)?; hypsubst; intro issued.intros)
  have sr: "appends issued (getUserRootDir P sb)" for sb
    by (rule appends_mono [OF getUserRootDir_appends]) ((elim disjE)?; hypsubst; intro issued.intros)
  have s2: "appends issued (step2_install P sb rootDir)" for sb rootDir
    by (rule appends_mono [OF step2_appends]) ((elim disjE)?; hypsubst; intro issued.intros pipeline_command.intros)
  have s3: "appends issued (step3_name prompt)"
    by (rule appends_mono [OF step3_appends]) simp
  have s4: "appends issued (step4_init P sb rootDir name)" for sb rootDir name
    by (rule appends_mono [OF step4_appends]) ((elim disjE)?; hypsubst; intro issued.intros pipeline_command.intros)
  have s5: "appends issued (step5_write_script P sb dir prompt name)" for sb dir name
    by (rule appends_mono [OF step5_appends]) ((elim disjE)?; hypsubst; intro issued.intros pipeline_command.intros)
  have s6: "appends issued (step6_generate P env sb rootDir dir)" for sb rootDir dir
    by (rule appends_mono [OF step6_appends]) ((elim disjE)?; hypsubst; intro issued.intros pipeline_command.intros)
  have s7: "appends issued (step7_validate P sb dir)" for sb dir
    by (rule appends_mono [OF step7_appends]) ((elim disjE)?; hypsubst; intro issued.intros pipeline_command.intros)
  have s8: "appends issued (step8_build P sb dir)" for sb dir
    by (rule appends_mono [OF step8_appends]) ((elim disjE)?; hypsubst; intro issued.intros pipeline_command.intros)
  have s9: "appends issued (step9_publish P sb dir)" for sb dir
    by (rule appends_mono [OF step9_appends]) ((elim disjE)?; hypsubst; intro issued.intros pipeline_command.intros)
  have s10: "appends issued (step10_info P sb dir name)" for sb dir name
    by (rule appends_mono [OF step10_appends]) ((elim disjE)?; hypsubst; intro issued.intros pipeline_command.intros)
  show ?thesis
    unfolding try_block_def
    by (intro appends_and_then s1 sr s2 s3 s4 s5 s6 s7 s8 s9 s10)
qed

lemma run_calls_issued:
  assumes "c \<in> set (snd (generateOpenComponentInDaytona P env sid prompt))"
  shows "issued c \<or> c = Process_exit 1"
proof (cases "truthy (DAYTONA_API_KEY env) \<and> truthy (ANTHROPIC_API_KEY env)")
  case True
  from try_block_issued [of P env prompt]
  obtain new where "calls (snd (try_block P env prompt (initial_state sid)))
                      = calls (initial_state sid) @ new" and "list_all issued new"
    unfolding appends_def by blast
  with True assms show ?thesis
    by (simp add: run_calls initial_state_def list_all_iff)
next
  case False
  with assms show ?thesis
    by (simp add: run_calls)
qed

lemma main_calls:
  assumes "c \<in> set (snd (main P env args))"
  shows "issued c \<or> c = Process_exit 1"
proof -
  obtain sid prompt where pa: "parse_args args = (sid, prompt)"
    by (cases "parse_args args")
  obtain res cs where run: "generateOpenComponentInDaytona P env sid (Some prompt) = (res, cs)"
    by (cases "generateOpenComponentInDaytona P env sid (Some prompt)")
  from pa run have "set (snd (main P env args)) \<subseteq> set cs \<union> {Process_exit 1}"
    by (cases res) (auto simp: main_def)
  with assms have "c \<in> set cs \<or> c = Process_exit 1"
    by blast
  with run run_calls_issued [of c P env sid "Some prompt"] show ?thesis
    by auto
qed

lemma issued_not_tears_down: "issued c \<Longrightarrow> \<not> tears_down c"
  by (erule issued.cases) (simp_all add: tears_down_def)

text \<open>
  C7. No run of the pipeline, however it ends, calls an operation that stops or deletes a
  sandbox: not the pipeline function, not \<open>main\<close> (which exits with code 1 on a failure),
  and not a run that is interrupted after any number of its calls, where the signal
  handler only ends the process.
\<close>

theorem sandbox_never_torn_down:
  "(\<forall>c \<in> set (snd (generateOpenComponentInDaytona P env sid prompt)). \<not> tears_down c)
   \<and> (\<forall>c \<in> set (snd (main P env args)). \<not> tears_down c)
   \<and> (\<forall>c \<in> set (snd (interrupted_main P env args n)). \<not> tears_down c)"
proof -
  have exit_ok: "\<not> tears_down (Process_exit k)" for k
    by (simp add: tears_down_def)
  have run: "\<forall>c \<in> set (snd (generateOpenComponentInDaytona P env sid prompt)). \<not> tears_down c"
    using run_calls_issued issued_not_tears_down exit_ok by blast
  have m: "\<forall>c \<in> set (snd (main P env args)). \<not> tears_down c"
    using main_calls issued_not_tears_down exit_ok by blast
  have "\<forall>c \<in> set (take n (snd (main P env args)) @ [Process_exit 0]). \<not> tears_down c"
    using m exit_ok by (auto dest: in_set_takeD)
  then have i: "\<forall>c \<in> set (snd (interrupted_main P env args n)). \<not> tears_down c"
    by (simp add: interrupted_main_def sigint_handler_def)
  from run m i show ?thesis by blast
qed

section \<open>Concrete runs\<close>

lemmas step_defs =
  try_block_def step1_sandbox_def find_sandbox_def create_sandbox_def getUserRootDir_def
  step2_install_def step3_name_def step4_init_def step5_write_script_def step6_generate_def
  step7_validate_def step8_build_def step9_publish_def step10_info_def executeCommand_def
  await_def and_then_def throw_def yield_def catch_block_def debug_info_def
  catch_scope_rootDir_def initial_state_def
  generateOpenComponentInDaytona_def truthy_def

lemmas world_defs = all_ok_def answering_def env0_def REGISTRY_URL_def sq_def dq_def nl_def

lemma button_name:
  "deriveComponentName (Some ''Create a button component'') = ''create-a-button-component''"
  by code_simp

lemma button_args:
  "parse_args [''Create'', ''a'', ''button'', ''component''] = (None, ''Create a button component'')"
  by (simp add: parse_args_def uuidRegex_test_def or_default_prompt_def is_hex_def is_digit_def
      code_def)

theorem sandbox_never_torn_down_witness:
  "snd (interrupted_main
          (answering (''oc publish . '' @ REGISTRY_URL) \<lparr>exitCode = 1, result = ''rejected''\<rparr> all_ok)
          env0 [''Create'', ''a'', ''button'', ''component''] 3)
     = [Daytona_create True ''node:20'', Sandbox_getUserRootDir ''sandbox-1'',
        Sandbox_executeCommand ''sandbox-1'' ''npm install -g oc'' ''/home/daytona'' None (Some 180000),
        Process_exit 0]
   \<and> list_all (\<lambda>c. \<not> tears_down c)
         (snd (interrupted_main
                 (answering (''oc publish . '' @ REGISTRY_URL) \<lparr>exitCode = 1, result = ''rejected''\<rparr> all_ok)
                 env0 [''Create'', ''a'', ''button'', ''component''] 3))
   \<and> fst (main
            (answering (''oc publish . '' @ REGISTRY_URL) \<lparr>exitCode = 1, result = ''rejected''\<rparr> all_ok)
            env0 [''Create'', ''a'', ''button'', ''component'']) = Exited 1
   \<and> length (snd (main
            (answering (''oc publish . '' @ REGISTRY_URL) \<lparr>exitCode = 1, result = ''rejected''\<rparr> all_ok)
            env0 [''Create'', ''a'', ''button'', ''component''])) = 12
   \<and> list_all (\<lambda>c. \<not> tears_down c)
         (snd (main
                 (answering (''oc publish . '' @ REGISTRY_URL) \<lparr>exitCode = 1, result = ''rejected''\<rparr> all_ok)
                 env0 [''Create'', ''a'', ''button'', ''component'']))"
proof -
  let ?P = "answering (''oc publish . '' @ REGISTRY_URL) \<lparr>exitCode = 1, result = ''rejected''\<rparr> all_ok"
  let ?args = "[''Create'', ''a'', ''button'', ''component'']"
  have i: "snd (interrupted_main ?P env0 ?args 3)
     = [Daytona_create True ''node:20'', Sandbox_getUserRootDir ''sandbox-1'',
        Sandbox_executeCommand ''sandbox-1'' ''npm install -g oc'' ''/home/daytona'' None (Some 180000),
        Process_exit 0]"
    by (simp add: interrupted_main_def sigint_handler_def main_def button_args button_name
        step_defs world_defs)
  have m: "fst (main ?P env0 ?args) = Exited 1"
    by (simp add: main_def button_args button_name step_defs world_defs)
  have l: "length (snd (main ?P env0 ?args)) = 12"
    by (simp add: main_def button_args button_name step_defs world_defs)
  from sandbox_never_torn_down [of ?P env0 None "Some ''Create a button component''" ?args 3]
  have "list_all (\<lambda>c. \<not> tears_down c) (snd (interrupted_main ?P env0 ?args 3))"
    and "list_all (\<lambda>c. \<not> tears_down c) (snd (main ?P env0 ?args))"
    unfolding list_all_iff by blast+
  with i m l show ?thesis by (simp only: simp_thms)
qed

section \<open>Timeouts\<close>

lemma button_run_calls:
  "snd (generateOpenComponentInDaytona all_ok env0 None (Some ''Create a button component'')) =
     [Daytona_create True ''node:20'',
      Sandbox_getUserRootDir ''sandbox-1'',
      Sandbox_executeCommand ''sandbox-1'' ''npm install -g oc'' ''/home/daytona'' None (Some 180000),
      Sandbox_executeCommand ''sandbox-1'' ''npm install @anthropic-ai/claude-code@latest''
        ''/home/daytona'' None (Some 180000),
      Sandbox_executeCommand ''sandbox-1'' ''oc init create-a-button-component'' ''/home/daytona''
        None None,
      Sandbox_executeCommand ''sandbox-1''
        (''cat > generate-component.js << '' @ sq @ ''SCRIPT_EOF'' @ sq @ nl
           @ generationScript (Some ''Create a button component'') ''create-a-button-component''
           @ nl @ ''SCRIPT_EOF'')
        ''/home/daytona/create-a-button-component'' None None,
      Sandbox_executeCommand ''sandbox-1'' ''node generate-component.js''
        ''/home/daytona/create-a-button-component''
        (Some [(''ANTHROPIC_API_KEY'', Some ''sk-ant-key''),
               (''NODE_PATH'', Some ''/home/daytona/node_modules'')])
        (Some 600000),
      Sandbox_executeCommand ''sandbox-1''
        (''ls -la && echo '' @ sq @ ''---'' @ sq @ '' && cat package.json | head -10'')
        ''/home/daytona/create-a-button-component'' None None,
      Sandbox_executeCommand ''sandbox-1'' ''oc build .''
        ''/home/daytona/create-a-button-component'' None (Some 180000),
      Sandbox_executeCommand ''sandbox-1'' ''oc publish . http://host.docker.internal:3030''
        ''/home/daytona/create-a-button-component'' None (Some 180000),
      Sandbox_executeCommand ''sandbox-1''
        (''curl -f '' @ dq @ ''http://host.docker.internal:3030create-a-button-component'' @ dq
           @ '' -H '' @ dq @ ''Accept: application/json'' @ dq
           @ '' || echo '' @ sq @ ''Component not accessible'' @ sq)
        ''/home/daytona/create-a-button-component'' None None]"
  by (simp add: button_name step_defs world_defs)

text \<open>
  C8, as stated, fails: in the run of the prompt \<open>Create a button component\<close> against a
  provider that answers every call with success, the scaffold command \<open>oc init\<close> and the
  probe of the published component are called without a timeout.
\<close>

theorem scaffold_and_probe_without_timeout:
  "Sandbox_executeCommand ''sandbox-1'' ''oc init create-a-button-component'' ''/home/daytona''
       None None
     \<in> set (snd (generateOpenComponentInDaytona all_ok env0 None (Some ''Create a button component'')))
   \<and> \<not> has_timeout
         (Sandbox_executeCommand ''sandbox-1'' ''oc init create-a-button-component''
            ''/home/daytona'' None None)
   \<and> Sandbox_executeCommand ''sandbox-1''
        (''curl -f '' @ dq @ ''http://host.docker.internal:3030create-a-button-component'' @ dq
           @ '' -H '' @ dq @ ''Accept: application/json'' @ dq
           @ '' || echo '' @ sq @ ''Component not accessible'' @ sq)
        ''/home/daytona/create-a-button-component'' None None
     \<in> set (snd (generateOpenComponentInDaytona all_ok env0 None (Some ''Create a button component'')))
   \<and> list_ex (\<lambda>c. \<not> has_timeout c)
         (snd (generateOpenComponentInDaytona all_ok env0 None (Some ''Create a button component'')))"
  unfolding button_run_calls by (simp add: has_timeout_def)

lemma pipeline_command_timeout:
  assumes "pipeline_command cmd t"
  shows "t = (if cmd \<in> {''npm install -g oc'', ''npm install @anthropic-ai/claude-code@latest'',
                        ''oc build .'', ''oc publish . '' @ REGISTRY_URL}
              then Some 180000
              else if cmd = ''node generate-component.js'' then Some 600000
              else None)"
  using assms
  by (cases rule: pipeline_command.cases) (simp_all add: REGISTRY_URL_def sq_def dq_def nl_def)

text \<open>
  C8, amended. Every remote command of a run is one of the pipeline's eleven commands.
  The two installs, the build and the publish command are called with the timeout 180000,
  the generation command with the timeout 600000, and every other command (scaffold,
  writing the script, listing the files, the verbose build, the registry probe and the
  probe of the component) with no timeout.
\<close>

theorem timeouts_by_command:
  assumes "Sandbox_executeCommand sb cmd cwd e t
             \<in> set (snd (generateOpenComponentInDaytona P env sid prompt))"
  shows "pipeline_command cmd t
         \<and> t = (if cmd \<in> {''npm install -g oc'', ''npm install @anthropic-ai/claude-code@latest'',
                            ''oc build .'', ''oc publish . '' @ REGISTRY_URL}
                 then Some 180000
                 else if cmd = ''node generate-component.js'' then Some 600000
                 else None)"
proof -
  from assms have "issued (Sandbox_executeCommand sb cmd cwd e t)"
    using run_calls_issued by blast
  then have "pipeline_command cmd t"
    by (cases rule: issued.cases) simp_all
  then show ?thesis
    using pipeline_command_timeout by blast
qed

theorem timeouts_by_command_witness:
  "Sandbox_executeCommand ''sandbox-1'' ''oc build .'' ''/home/daytona/create-a-button-component''
       None (Some 180000)
     \<in> set (snd (generateOpenComponentInDaytona all_ok env0 None (Some ''Create a button component'')))
   \<and> pipeline_command ''oc build .'' (Some 180000)
   \<and> Sandbox_executeCommand ''sandbox-1'' ''oc init create-a-button-component'' ''/home/daytona''
       None None
     \<in> set (snd (generateOpenComponentInDaytona all_ok env0 None (Some ''Create a button component'')))
   \<and> pipeline_command ''oc init create-a-button-component'' None"
proof -
  have b: "Sandbox_executeCommand ''sandbox-1'' ''oc build .''
             ''/home/daytona/create-a-button-component'' None (Some 180000)
     \<in> set (snd (generateOpenComponentInDaytona all_ok env0 None (Some ''Create a button component'')))"
    unfolding button_run_calls by simp
  have i: "Sandbox_executeCommand ''sandbox-1'' ''oc init create-a-button-component''
             ''/home/daytona'' None None
     \<in> set (snd (generateOpenComponentInDaytona all_ok env0 None (Some ''Create a button component'')))"
    unfolding button_run_calls by simp
  from timeouts_by_command [OF b] timeouts_by_command [OF i] b i show ?thesis
    by blast
qed

section \<open>Acquiring the sandbox\<close>

text \<open>
  C5. Given a sandbox id (a non-empty string, since the script treats an empty one as
  absent) that none of the sandboxes returned by \<open>daytona.list()\<close> carries, the run throws
  the error \<open>Sandbox <id> not found\<close>, and the listing is the only call it has made: no
  install command, nor any other command, was run.
\<close>

theorem unknown_sandbox_id:
  assumes "truthy (DAYTONA_API_KEY env)" and "truthy (ANTHROPIC_API_KEY env)"
    and "sid \<noteq> []"
    and "on_list P [] = Resolved sandboxes"
    and "sid \<notin> sandbox_id ` set sandboxes"
  shows "generateOpenComponentInDaytona P env (Some sid) prompt =
           (Threw (Error (''Sandbox '' @ sid @ '' not found'')), [Daytona_list])"
proof -
  from assms(5) have "find (\<lambda>s. sandbox_id s = sid) sandboxes = None"
    by (auto simp: find_None_iff)
  with assms(3,4) have "step1_sandbox P (initial_state (Some sid)) =
      (Inl (Error (''Sandbox '' @ sid @ '' not found'')),
       (initial_state (Some sid))\<lparr>calls := [Daytona_list], var_sandbox := None\<rparr>)"
    by (simp add: step1_sandbox_def find_sandbox_def and_then_def await_def throw_def
        initial_state_def)
  then have "try_block P env prompt (initial_state (Some sid)) =
      (Inl (Error (''Sandbox '' @ sid @ '' not found'')),
       (initial_state (Some sid))\<lparr>calls := [Daytona_list], var_sandbox := None\<rparr>)"
    unfolding try_block_def by (rule and_then_Inl)
  with assms(1,2) show ?thesis
    by (simp add: run_with_keys)
qed

theorem unknown_sandbox_id_witness:
  "truthy (DAYTONA_API_KEY env0) \<and> truthy (ANTHROPIC_API_KEY env0)
   \<and> on_list all_ok [] = Resolved [\<lparr>sandbox_id = ''0a1b2c3d-0000-4000-8000-000000000001''\<rparr>]
   \<and> generateOpenComponentInDaytona all_ok env0 (Some ''0a1b2c3d-0000-4000-8000-000000000002'')
        (Some ''a card'')
       = (Threw (Error ''Sandbox 0a1b2c3d-0000-4000-8000-000000000002 not found''), [Daytona_list])"
proof -
  have k: "truthy (DAYTONA_API_KEY env0)" "truthy (ANTHROPIC_API_KEY env0)"
    by (simp_all add: env0_def truthy_def)
  have n: "''0a1b2c3d-0000-4000-8000-000000000002'' \<noteq> []"
    by simp
  have l: "on_list all_ok [] = Resolved [\<lparr>sandbox_id = ''0a1b2c3d-0000-4000-8000-000000000001''\<rparr>]"
    by (simp add: all_ok_def)
  have a: "''0a1b2c3d-0000-4000-8000-000000000002''
             \<notin> sandbox_id ` set [\<lparr>sandbox_id = ''0a1b2c3d-0000-4000-8000-000000000001''\<rparr>]"
    by simp
  from unknown_sandbox_id [OF k n l a, of "Some ''a card''"] k l show ?thesis
    by simp
qed

lemma step1_creates:
  "triple (\<lambda>st. st = initial_state None) (step1_sandbox P)
     (\<lambda>a st. created_first (calls st)) (\<lambda>e st. created_first (calls st))"
  by (simp add: triple_def step1_sandbox_def create_sandbox_def and_then_def await_def yield_def
      initial_state_def created_first_def split: promise.splits)

lemma created_first_triple:
  assumes "appends Q f" and "\<And>c. Q c \<Longrightarrow> c \<noteq> Daytona_list"
  shows "triple (\<lambda>st. created_first (calls st)) f
           (\<lambda>a st. created_first (calls st)) (\<lambda>e st. created_first (calls st))"
proof (rule triple_appends [OF assms(1)])
  fix cs c
  assume "created_first cs" and "Q c"
  then show "created_first (cs @ [c])"
    using assms(2) [of c] by (auto simp: created_first_def split: list.splits)
qed

lemma try_block_creates:
  "triple (\<lambda>st. st = initial_state None) (try_block P env prompt)
     (\<lambda>a st. created_first (calls st)) (\<lambda>e st. created_first (calls st))"
  unfolding try_block_def
  apply (rule triple_and_then [OF step1_creates])
  apply (rule triple_and_then [OF created_first_triple [OF getUserRootDir_appends]], simp)
  apply (rule triple_and_then [OF created_first_triple [OF step2_appends]], fastforce)
  apply (rule triple_and_then [OF created_first_triple [OF step3_appends]], simp)
  apply (rule triple_and_then [OF created_first_triple [OF step4_appends]], simp)
  apply (rule triple_and_then [OF created_first_triple [OF step5_appends]], simp)
  apply (rule triple_and_then [OF created_first_triple [OF step6_appends]], simp)
  apply (rule triple_and_then [OF created_first_triple [OF step7_appends]], simp)
  apply (rule triple_and_then [OF created_first_triple [OF step8_appends]], fastforce)
  apply (rule triple_and_then [OF created_first_triple [OF step9_appends]], fastforce)
  apply (rule created_first_triple [OF step10_appends], simp)
  done

section \<open>The result of a successful run\<close>

lemma triple_trivial: "triple pre f (\<lambda>a st. True) (\<lambda>e st. True)"
  by (simp add: triple_def split: prod.splits sum.splits)

lemma triple_const: "triple (\<lambda>st. C) f (\<lambda>a st. C) (\<lambda>e st. True)"
  by (simp add: triple_def split: prod.splits sum.splits)

lemma step3_yields:
  "triple pre (step3_name prompt) (\<lambda>name st. name = deriveComponentName prompt) (\<lambda>e st. True)"
  by (simp add: triple_def step3_name_def yield_def)

lemma step10_yields:
  "triple (\<lambda>st. name = n) (step10_info P sb dir name) (\<lambda>r st. result_for n r) (\<lambda>e st. True)"
  by (simp add: triple_def step10_info_def executeCommand_def and_then_def await_def yield_def
      result_for_def split: promise.splits)

lemma triple_Inr:
  assumes "triple pre f post fail" and "pre st" and "f st = (Inr a, st')"
  shows "post a st'"
proof -
  from assms(1,2) have "case f st of (Inl e, s) \<Rightarrow> fail e s | (Inr b, s) \<Rightarrow> post b s"
    by (simp add: triple_def)
  with assms(3) show ?thesis by simp
qed

lemma triple_Inl:
  assumes "triple pre f post fail" and "pre st" and "f st = (Inl e, st')"
  shows "fail e st'"
proof -
  from assms(1,2) have "case f st of (Inl e, s) \<Rightarrow> fail e s | (Inr b, s) \<Rightarrow> post b s"
    by (simp add: triple_def)
  with assms(3) show ?thesis by simp
qed

lemma try_block_result:
  "triple (\<lambda>st. True) (try_block P env prompt)
     (\<lambda>r st. result_for (deriveComponentName prompt) r) (\<lambda>e st. True)"
  unfolding try_block_def
  apply (rule triple_and_then [OF triple_trivial])
  apply (rule triple_and_then [OF triple_trivial])
  apply (rule triple_and_then [OF triple_trivial])
  apply (rule triple_and_then [OF step3_yields])
  apply (rule triple_and_then [OF triple_const])
  apply (rule triple_and_then [OF triple_const])
  apply (rule triple_and_then [OF triple_const])
  apply (rule triple_and_then [OF triple_const])
  apply (rule triple_and_then [OF triple_const])
  apply (rule triple_and_then [OF triple_const])
  apply (rule step10_yields)
  done

lemma run_result:
  assumes "fst (generateOpenComponentInDaytona P env sid prompt) = Returned r"
  shows "result_for (deriveComponentName prompt) r"
proof (cases "truthy (DAYTONA_API_KEY env) \<and> truthy (ANTHROPIC_API_KEY env)")
  case True
  obtain res st where tb: "try_block P env prompt (initial_state sid) = (res, st)"
    by (cases "try_block P env prompt (initial_state sid)")
  with True assms have "res = Inr r"
    by (cases res) (simp_all add: run_with_keys)
  with tb have "try_block P env prompt (initial_state sid) = (Inr r, st)"
    by simp
  with try_block_result [of P env prompt] show ?thesis
    by (rule triple_Inr [where pre = "\<lambda>st. True", OF _ TrueI])
next
  case False
  with assms show ?thesis
    by (simp add: run_without_keys)
qed

text \<open>
  C6. For the prompt \<open>Create a button component\<close> and no sandbox id, the first call of the
  run creates a sandbox (image \<open>node:20\<close>) and no call lists the sandboxes; the component
  name is \<open>create-a-button-component\<close>; and every result the run returns has
  \<open>success = true\<close>, that component name, and as \<open>componentUrl\<close> the registry URL
  directly followed by the name.
\<close>

theorem button_component_run:
  assumes "truthy (DAYTONA_API_KEY env)" and "truthy (ANTHROPIC_API_KEY env)"
  shows "created_first (snd (generateOpenComponentInDaytona P env None (Some ''Create a button component'')))
     \<and> deriveComponentName (Some ''Create a button component'') = ''create-a-button-component''
     \<and> (\<forall>r. fst (generateOpenComponentInDaytona P env None (Some ''Create a button component''))
                = Returned r \<longrightarrow>
              success r \<and> componentName r = ''create-a-button-component''
              \<and> componentUrl r = REGISTRY_URL @ ''create-a-button-component'')"
proof -
  let ?prompt = "Some ''Create a button component''"
  obtain res st where tb: "try_block P env ?prompt (initial_state None) = (res, st)"
    by (cases "try_block P env ?prompt (initial_state None)")
  with try_block_creates [of P env ?prompt] have "created_first (calls st)"
    by (cases res) (simp_all add: triple_def)
  with assms tb have first: "created_first (snd (generateOpenComponentInDaytona P env None ?prompt))"
    by (simp add: run_calls)
  have fields: "\<forall>r. fst (generateOpenComponentInDaytona P env None ?prompt) = Returned r \<longrightarrow>
              success r \<and> componentName r = ''create-a-button-component''
              \<and> componentUrl r = REGISTRY_URL @ ''create-a-button-component''"
    using run_result [of P env None ?prompt] by (simp add: result_for_def button_name)
  from first button_name fields show ?thesis by blast
qed

theorem button_component_run_witness:
  "truthy (DAYTONA_API_KEY env0) \<and> truthy (ANTHROPIC_API_KEY env0)
   \<and> fst (generateOpenComponentInDaytona all_ok env0 None (Some ''Create a button component''))
       = Returned \<lparr>success = True, sandboxId = Some ''sandbox-1'',
                   componentName = ''create-a-button-component'',
                   componentDir = ''/home/daytona/create-a-button-component'',
                   componentUrl = ''http://host.docker.internal:3030create-a-button-component'',
                   registryUrl = ''http://host.docker.internal:3030''\<rparr>
   \<and> created_first (snd (generateOpenComponentInDaytona all_ok env0 None (Some ''Create a button component'')))"
proof -
  have k: "truthy (DAYTONA_API_KEY env0)" "truthy (ANTHROPIC_API_KEY env0)"
    by (simp_all add: env0_def truthy_def)
  have r: "fst (generateOpenComponentInDaytona all_ok env0 None (Some ''Create a button component''))
       = Returned \<lparr>success = True, sandboxId = Some ''sandbox-1'',
                   componentName = ''create-a-button-component'',
                   componentDir = ''/home/daytona/create-a-button-component'',
                   componentUrl = ''http://host.docker.internal:3030create-a-button-component'',
                   registryUrl = ''http://host.docker.internal:3030''\<rparr>"
    by (simp add: button_name step_defs world_defs)
  from button_component_run [OF k, of all_ok] k r show ?thesis
    by blast
qed

section \<open>Installing the tooling\<close>

lemma cli_install_failure_stops:
  assumes "on_executeCommand P (calls st) (sandbox_id sb) ''npm install -g oc'' rootDir None
             (Some 180000) = Resolved r"
    and "exitCode r \<noteq> 0"
  shows "step2_install P sb rootDir st =
           (Inl (Error ''Failed to install OpenComponents CLI''),
            st\<lparr>calls := calls st @ [Sandbox_executeCommand (sandbox_id sb) ''npm install -g oc''
                                       rootDir None (Some 180000)]\<rparr>)"
  using assms
  by (simp add: step2_install_def executeCommand_def and_then_def await_def throw_def)

text \<open>
  C4 at the failing input: the provider answers the install of the agent SDK with exit
  code 1 and everything else with success. The run goes on to the scaffold command
  \<open>oc init\<close> and returns a success result; no error is thrown.
\<close>

theorem sdk_install_failure_ignored:
  "Sandbox_executeCommand ''sandbox-1'' ''oc init create-a-button-component'' ''/home/daytona''
       None None
     \<in> set (snd (generateOpenComponentInDaytona
                   (answering ''npm install @anthropic-ai/claude-code@latest''
                      \<lparr>exitCode = 1, result = ''npm ERR!''\<rparr> all_ok)
                   env0 None (Some ''Create a button component'')))
   \<and> fst (generateOpenComponentInDaytona
            (answering ''npm install @anthropic-ai/claude-code@latest''
               \<lparr>exitCode = 1, result = ''npm ERR!''\<rparr> all_ok)
            env0 None (Some ''Create a button component''))
       = Returned \<lparr>success = True, sandboxId = Some ''sandbox-1'',
                   componentName = ''create-a-button-component'',
                   componentDir = ''/home/daytona/create-a-button-component'',
                   componentUrl = ''http://host.docker.internal:3030create-a-button-component'',
                   registryUrl = ''http://host.docker.internal:3030''\<rparr>"
  by (simp add: button_name step_defs world_defs)

theorem sdk_install_failure_ignored_witness:
  "truthy (DAYTONA_API_KEY env0) \<and> truthy (ANTHROPIC_API_KEY env0)
   \<and> on_executeCommand
        (answering ''npm install @anthropic-ai/claude-code@latest''
           \<lparr>exitCode = 1, result = ''npm ERR!''\<rparr> all_ok)
        [] ''sandbox-1'' ''npm install @anthropic-ai/claude-code@latest'' ''/home/daytona'' None
        (Some 180000)
      = Resolved \<lparr>exitCode = 1, result = ''npm ERR!''\<rparr>
   \<and> Sandbox_executeCommand ''sandbox-1'' ''oc init create-a-button-component'' ''/home/daytona''
       None None
     \<in> set (snd (generateOpenComponentInDaytona
                   (answering ''npm install @anthropic-ai/claude-code@latest''
                      \<lparr>exitCode = 1, result = ''npm ERR!''\<rparr> all_ok)
                   env0 None (Some ''Create a button component'')))"
proof -
  have k: "truthy (DAYTONA_API_KEY env0)" "truthy (ANTHROPIC_API_KEY env0)"
    by (simp_all add: env0_def truthy_def)
  have a: "on_executeCommand
        (answering ''npm install @anthropic-ai/claude-code@latest''
           \<lparr>exitCode = 1, result = ''npm ERR!''\<rparr> all_ok)
        [] ''sandbox-1'' ''npm install @anthropic-ai/claude-code@latest'' ''/home/daytona'' None
        (Some 180000)
      = Resolved \<lparr>exitCode = 1, result = ''npm ERR!''\<rparr>"
    by (simp add: answering_def)
  from sdk_install_failure_ignored k a show ?thesis
    by blast
qed

section \<open>Generation and build\<close>

lemma no_command_snoc:
  "no_command cmd cs \<Longrightarrow> command_of c \<noteq> Some cmd \<Longrightarrow> no_command cmd (cs @ [c])"
  by (simp add: no_command_def)

lemma generation_returned_0_snoc:
  assumes "generation_returned_0 P cs"
  shows "generation_returned_0 P (cs @ [c])"
proof -
  from assms obtain pre post sb dir env r where
    "cs = pre @ Sandbox_executeCommand sb ''node generate-component.js'' dir env (Some 600000) # post"
    and a: "on_executeCommand P pre sb ''node generate-component.js'' dir env (Some 600000) = Resolved r"
           "exitCode r = 0"
    unfolding generation_returned_0_def by blast
  then have "cs @ [c] =
      pre @ Sandbox_executeCommand sb ''node generate-component.js'' dir env (Some 600000) # (post @ [c])"
    by simp
  with a show ?thesis
    unfolding generation_returned_0_def by blast
qed

lemma before_generation:
  assumes "appends Q f" and "\<And>c. Q c \<Longrightarrow> command_of c \<noteq> Some ''oc build .''"
  shows "triple (\<lambda>st. no_command ''oc build .'' (calls st)) f
           (\<lambda>a st. no_command ''oc build .'' (calls st)) (\<lambda>e st. build_justified P (calls st))"
proof (rule triple_weaken)
  show "triple (\<lambda>st. no_command ''oc build .'' (calls st)) f
           (\<lambda>a st. no_command ''oc build .'' (calls st)) (\<lambda>e st. no_command ''oc build .'' (calls st))"
    by (rule triple_appends [OF assms(1)]) (simp add: no_command_snoc assms(2))
qed (simp_all add: build_justified_def)

lemma after_generation:
  assumes "appends Q f"
  shows "triple (\<lambda>st. generation_returned_0 P (calls st)) f
           (\<lambda>a st. generation_returned_0 P (calls st)) (\<lambda>e st. build_justified P (calls st))"
proof (rule triple_weaken)
  show "triple (\<lambda>st. generation_returned_0 P (calls st)) f
           (\<lambda>a st. generation_returned_0 P (calls st)) (\<lambda>e st. generation_returned_0 P (calls st))"
    by (rule triple_appends [OF assms]) (rule generation_returned_0_snoc)
qed (simp_all add: build_justified_def)

lemma at_generation:
  "triple (\<lambda>st. no_command ''oc build .'' (calls st)) (step6_generate P env sb rootDir dir)
     (\<lambda>a st. generation_returned_0 P (calls st)) (\<lambda>e st. build_justified P (calls st))"
  unfolding triple_def
proof (intro allI impI)
  fix st :: state
  let ?env = "Some [(''ANTHROPIC_API_KEY'', ANTHROPIC_API_KEY env),
                    (''NODE_PATH'', Some (rootDir @ ''/node_modules''))]"
  let ?c = "Sandbox_executeCommand (sandbox_id sb) ''node generate-component.js'' dir ?env (Some 600000)"
  assume nb: "no_command ''oc build .'' (calls st)"
  then have nb': "no_command ''oc build .'' (calls st @ [?c])"
    by (simp add: no_command_def command_of_def)
  show "case step6_generate P env sb rootDir dir st of
          (Inl e, st') \<Rightarrow> build_justified P (calls st')
        | (Inr a, st') \<Rightarrow> generation_returned_0 P (calls st')"
  proof (cases "on_executeCommand P (calls st) (sandbox_id sb) ''node generate-component.js'' dir
                  ?env (Some 600000)")
    case (Rejected e)
    with nb' show ?thesis
      by (simp add: step6_generate_def executeCommand_def and_then_def await_def build_justified_def)
  next
    case (Resolved r)
    show ?thesis
    proof (cases "exitCode r = 0")
      case True
      with Resolved have "generation_returned_0 P (calls st @ [?c])"
        unfolding generation_returned_0_def by blast
      with Resolved True show ?thesis
        by (simp add: step6_generate_def executeCommand_def and_then_def await_def yield_def)
    next
      case False
      with Resolved nb' show ?thesis
        by (simp add: step6_generate_def executeCommand_def and_then_def await_def throw_def
            build_justified_def)
    qed
  qed
qed

lemma at_end:
  assumes "appends Q f"
  shows "triple (\<lambda>st. generation_returned_0 P (calls st)) f
           (\<lambda>a st. build_justified P (calls st)) (\<lambda>e st. build_justified P (calls st))"
  by (rule triple_weaken [OF after_generation [OF assms]]) (simp_all add: build_justified_def)

lemma try_block_build_justified:
  "triple (\<lambda>st. no_command ''oc build .'' (calls st)) (try_block P env prompt)
     (\<lambda>a st. build_justified P (calls st)) (\<lambda>e st. build_justified P (calls st))"
  unfolding try_block_def
  apply (rule triple_and_then [OF before_generation [OF step1_appends]])
   apply (auto simp: command_of_def)[1]
  apply (rule triple_and_then [OF before_generation [OF getUserRootDir_appends]])
   apply (simp add: command_of_def)
  apply (rule triple_and_then [OF before_generation [OF step2_appends]])
   apply (auto simp: command_of_def)[1]
  apply (rule triple_and_then [OF before_generation [OF step3_appends]])
   apply simp
  apply (rule triple_and_then [OF before_generation [OF step4_appends]])
   apply (simp add: command_of_def)
  apply (rule triple_and_then [OF before_generation [OF step5_appends]])
   apply (simp add: command_of_def sq_def)
  apply (rule triple_and_then [OF at_generation])
  apply (rule triple_and_then [OF after_generation [OF step7_appends]])
  apply (rule triple_and_then [OF after_generation [OF step8_appends]])
  apply (rule triple_and_then [OF after_generation [OF step9_appends]])
  apply (rule at_end [OF step10_appends])
  done

lemma run_build_justified:
  "build_justified P (snd (generateOpenComponentInDaytona P env sid prompt))"
proof (cases "truthy (DAYTONA_API_KEY env) \<and> truthy (ANTHROPIC_API_KEY env)")
  case True
  obtain res st where tb: "try_block P env prompt (initial_state sid) = (res, st)"
    by (cases "try_block P env prompt (initial_state sid)")
  have "no_command ''oc build .'' (calls (initial_state sid))"
    by (simp add: no_command_def initial_state_def)
  with try_block_build_justified [of P env prompt] tb have "build_justified P (calls st)"
    by (cases res) (auto dest: triple_Inl triple_Inr)
  with True tb show ?thesis
    by (simp add: run_calls)
next
  case False
  then have "generateOpenComponentInDaytona P env sid prompt = (Exited 1, [Process_exit 1])"
    by (rule run_without_keys)
  then show ?thesis
    by (simp add: build_justified_def no_command_def command_of_def)
qed

text \<open>
  C1, as stated, fails. In a component directory with a manifest and no view file the
  generation script prints its warning and ends with exit code 0; against a provider that
  answers the generation command so, the run issues the build command, and it fails with
  the build's error, not before the build.
\<close>

theorem build_despite_missing_view:
  "\<not> no_view_file ''view.js'' \<and> \<not> no_view_file ''view.jsx'' \<and> \<not> no_view_file ''view.ts''
   \<and> incomplete_warning (generation_script_run Session_completed no_view_file)
   \<and> script_exit (generation_script_run Session_completed no_view_file) = 0
   \<and> Sandbox_executeCommand ''sandbox-1'' ''oc build .'' ''/home/daytona/create-a-button-component''
        None (Some 180000)
      \<in> set (snd (generateOpenComponentInDaytona incomplete_artifact env0 None
                    (Some ''Create a button component'')))
   \<and> fst (generateOpenComponentInDaytona incomplete_artifact env0 None
            (Some ''Create a button component''))
       = Threw (Error ''Component build failed'')"
  by (simp add: no_view_file_def generation_script_run_def incomplete_artifact_def button_name
      step_defs world_defs)

text \<open>
  C1, amended. In every run in which the build command is issued, the generation command
  was issued before and the provider answered it with exit code 0. Whether the view file
  and the manifest exist is looked at only inside the generation script, which ends with
  exit code 0 whenever its session runs through, whichever files exist: a missing file
  does not stop the run before the build.
\<close>

theorem build_only_after_generation:
  assumes "Sandbox_executeCommand sb ''oc build .'' dir e t
             \<in> set (snd (generateOpenComponentInDaytona P env sid prompt))"
  shows "generation_returned_0 P (snd (generateOpenComponentInDaytona P env sid prompt))
         \<and> script_exit (generation_script_run Session_completed existsSync) = 0"
proof -
  have "command_of (Sandbox_executeCommand sb ''oc build .'' dir e t) = Some ''oc build .''"
    by (simp add: command_of_def)
  with assms have "\<not> no_command ''oc build .'' (snd (generateOpenComponentInDaytona P env sid prompt))"
    unfolding no_command_def list_all_iff by blast
  with run_build_justified [of P env sid prompt]
  have "generation_returned_0 P (snd (generateOpenComponentInDaytona P env sid prompt))"
    by (simp add: build_justified_def)
  then show ?thesis
    by (simp add: generation_script_run_def Let_def)
qed

theorem build_only_after_generation_witness:
  "Sandbox_executeCommand ''sandbox-1'' ''oc build .'' ''/home/daytona/create-a-button-component''
        None (Some 180000)
      \<in> set (snd (generateOpenComponentInDaytona all_ok env0 None (Some ''Create a button component'')))
   \<and> generation_returned_0 all_ok
        (snd (generateOpenComponentInDaytona all_ok env0 None (Some ''Create a button component'')))
   \<and> script_exit (generation_script_run Session_completed no_view_file) = 0"
proof -
  have b: "Sandbox_executeCommand ''sandbox-1'' ''oc build .''
             ''/home/daytona/create-a-button-component'' None (Some 180000)
     \<in> set (snd (generateOpenComponentInDaytona all_ok env0 None (Some ''Create a button component'')))"
    unfolding button_run_calls by simp
  from build_only_after_generation [OF b, of no_view_file] b show ?thesis
    by blast
qed

section \<open>Publishing\<close>

lemma split_unique:
  assumes "xs @ p # ys = pre @ q # post"
    and "list_all (\<lambda>c. \<not> R c) xs" and "list_all (\<lambda>c. \<not> R c) ys" and "R q"
  shows "pre = xs \<and> q = p \<and> post = ys"
  using assms
proof (induction xs arbitrary: pre)
  case Nil
  then show ?case
    by (cases pre) (auto simp: list_all_iff)
next
  case (Cons x xs)
  then show ?case
    by (cases pre) (auto simp: list_all_iff)
qed

lemma publish_failures_probed_at:
  assumes np: "no_command (''oc publish . '' @ REGISTRY_URL) cs"
    and ys: "no_command (''oc publish . '' @ REGISTRY_URL) ys"
    and ok: "\<And>r. on_executeCommand P cs sb (''oc publish . '' @ REGISTRY_URL) dir None (Some 180000)
                   = Resolved r \<Longrightarrow> exitCode r \<noteq> 0 \<Longrightarrow>
               ys = [probe_call sb dir]
               \<and> (case on_executeCommand P (cs @ [publish_call sb dir]) sb
                         (''curl -f '' @ REGISTRY_URL @ '' || echo '' @ sq @ ''Registry not accessible'' @ sq)
                         dir None None of
                    Resolved a \<Rightarrow> res = Inl publish_error
                  | Rejected e \<Rightarrow> res = Inl e)"
  shows "publish_failures_probed P res (cs @ publish_call sb dir # ys)"
  unfolding publish_failures_probed_def
proof (intro allI impI, elim conjE)
  fix pre post sb' dir' r
  assume eq: "cs @ publish_call sb dir # ys = pre @ publish_call sb' dir' # post"
    and ans: "on_executeCommand P pre sb' (''oc publish . '' @ REGISTRY_URL) dir' None (Some 180000)
                = Resolved r"
    and nz: "exitCode r \<noteq> 0"
  have "command_of (publish_call sb' dir') = Some (''oc publish . '' @ REGISTRY_URL)"
    by (simp add: publish_call_def command_of_def)
  with split_unique [where R = "\<lambda>c. command_of c = Some (''oc publish . '' @ REGISTRY_URL)", OF eq]
    np ys
  have u: "pre = cs \<and> publish_call sb' dir' = publish_call sb dir \<and> post = ys"
    by (simp add: no_command_def)
  then have same: "sb' = sb" "dir' = dir"
    by (simp_all add: publish_call_def)
  from u same ans nz ok [of r]
  show "post = [probe_call sb' dir']
        \<and> (case on_executeCommand P (pre @ [publish_call sb' dir']) sb'
                  (''curl -f '' @ REGISTRY_URL @ '' || echo '' @ sq @ ''Registry not accessible'' @ sq)
                  dir' None None of
             Resolved a \<Rightarrow> res = Inl publish_error
           | Rejected e \<Rightarrow> res = Inl e)"
    by simp
qed

lemma no_publish_so_far:
  assumes "no_command (''oc publish . '' @ REGISTRY_URL) cs"
  shows "publish_failures_probed P res cs"
  unfolding publish_failures_probed_def
proof (intro allI impI, elim conjE)
  fix pre post sb dir r
  assume "cs = pre @ publish_call sb dir # post"
  then have "publish_call sb dir \<in> set cs"
    by simp
  with assms have "command_of (publish_call sb dir) \<noteq> Some (''oc publish . '' @ REGISTRY_URL)"
    unfolding no_command_def list_all_iff by blast
  then have False
    by (simp add: publish_call_def command_of_def)
  then show "post = [probe_call sb dir]
        \<and> (case on_executeCommand P (pre @ [publish_call sb dir]) sb
                  (''curl -f '' @ REGISTRY_URL @ '' || echo '' @ sq @ ''Registry not accessible'' @ sq)
                  dir None None of
             Resolved a \<Rightarrow> res = Inl publish_error
           | Rejected e \<Rightarrow> res = Inl e)"
    by simp
qed

lemma before_publish:
  assumes "appends Q f" and "\<And>c. Q c \<Longrightarrow> command_of c \<noteq> Some (''oc publish . '' @ REGISTRY_URL)"
  shows "triple (\<lambda>st. no_command (''oc publish . '' @ REGISTRY_URL) (calls st)) f
           (\<lambda>a st. no_command (''oc publish . '' @ REGISTRY_URL) (calls st))
           (\<lambda>e st. publish_failures_probed P (Inl e) (calls st))"
proof (rule triple_weaken)
  show "triple (\<lambda>st. no_command (''oc publish . '' @ REGISTRY_URL) (calls st)) f
           (\<lambda>a st. no_command (''oc publish . '' @ REGISTRY_URL) (calls st))
           (\<lambda>e st. no_command (''oc publish . '' @ REGISTRY_URL) (calls st))"
    by (rule triple_appends [OF assms(1)]) (erule no_command_snoc, erule assms(2))
qed (simp_all add: no_publish_so_far)

lemma publish_and_after:
  "triple (\<lambda>st. no_command (''oc publish . '' @ REGISTRY_URL) (calls st))
     (and_then (step9_publish P sb dir) (\<lambda>_. step10_info P sb dir name))
     (\<lambda>r st. publish_failures_probed P (Inr r) (calls st))
     (\<lambda>e st. publish_failures_probed P (Inl e) (calls st))"
  unfolding triple_def
proof (intro allI impI)
  fix st :: state
  let ?pc = "''oc publish . '' @ REGISTRY_URL"
  let ?probe = "''curl -f '' @ REGISTRY_URL @ '' || echo '' @ sq @ ''Registry not accessible'' @ sq"
  let ?verify = "''curl -f '' @ dq @ REGISTRY_URL @ name @ dq @ '' -H '' @ dq
                   @ ''Accept: application/json'' @ dq
                   @ '' || echo '' @ sq @ ''Component not accessible'' @ sq"
  let ?f = "and_then (step9_publish P sb dir) (\<lambda>_. step10_info P sb dir name)"
  let ?pub = "publish_call (sandbox_id sb) dir"
  assume np: "no_command ?pc (calls st)"
  have no_probe: "no_command ?pc [probe_call (sandbox_id sb) dir]"
    by (simp add: no_command_def probe_call_def command_of_def REGISTRY_URL_def)
  have no_verify: "no_command ?pc [Sandbox_executeCommand (sandbox_id sb) ?verify dir None None]"
    by (simp add: no_command_def command_of_def REGISTRY_URL_def dq_def)
  have no_more: "no_command ?pc []"
    by (simp add: no_command_def)
  show "case ?f st of
          (Inl e, st') \<Rightarrow> publish_failures_probed P (Inl e) (calls st')
        | (Inr r, st') \<Rightarrow> publish_failures_probed P (Inr r) (calls st')"
  proof (cases "on_executeCommand P (calls st) (sandbox_id sb) ?pc dir None (Some 180000)")
    case (Rejected e)
    then have run: "?f st = (Inl e, st\<lparr>calls := calls st @ [?pub]\<rparr>)"
      by (simp add: step9_publish_def executeCommand_def and_then_def await_def publish_call_def)
    from Rejected have "publish_failures_probed P (Inl e) (calls st @ ?pub # [])"
      by (intro publish_failures_probed_at np no_more) simp
    with run show ?thesis by simp
  next
    case (Resolved r)
    show ?thesis
    proof (cases "exitCode r = 0")
      case True
      from Resolved True have ok: "publish_failures_probed P res
             (calls st @ ?pub # [Sandbox_executeCommand (sandbox_id sb) ?verify dir None None])" for res
        by (intro publish_failures_probed_at np no_verify) simp
      from Resolved True have "calls (snd (?f st))
             = calls st @ ?pub # [Sandbox_executeCommand (sandbox_id sb) ?verify dir None None]"
        by (simp add: step9_publish_def step10_info_def executeCommand_def and_then_def await_def
            yield_def publish_call_def split: promise.splits)
      with ok show ?thesis
        by (cases "?f st") (auto split: sum.splits)
    next
      case False
      show ?thesis
      proof (cases "on_executeCommand P (calls st @ [?pub]) (sandbox_id sb) ?probe dir None None")
        case (Resolved a)
        with \<open>on_executeCommand P (calls st) (sandbox_id sb) ?pc dir None (Some 180000) = Resolved r\<close>
          False
        have run: "?f st = (Inl publish_error,
                     st\<lparr>calls := calls st @ ?pub # [probe_call (sandbox_id sb) dir]\<rparr>)"
          by (simp add: step9_publish_def executeCommand_def and_then_def await_def throw_def
              publish_call_def probe_call_def publish_error_def)
        from Resolved have "publish_failures_probed P (Inl publish_error)
               (calls st @ ?pub # [probe_call (sandbox_id sb) dir])"
          by (intro publish_failures_probed_at np no_probe) simp
        with run show ?thesis by simp
      next
        case (Rejected e)
        with \<open>on_executeCommand P (calls st) (sandbox_id sb) ?pc dir None (Some 180000) = Resolved r\<close>
          False
        have run: "?f st = (Inl e, st\<lparr>calls := calls st @ ?pub # [probe_call (sandbox_id sb) dir]\<rparr>)"
          by (simp add: step9_publish_def executeCommand_def and_then_def await_def throw_def
              publish_call_def probe_call_def)
        from Rejected have "publish_failures_probed P (Inl e)
               (calls st @ ?pub # [probe_call (sandbox_id sb) dir])"
          by (intro publish_failures_probed_at np no_probe) simp
        with run show ?thesis by simp
      qed
    qed
  qed
qed

lemma try_block_publish:
  "triple (\<lambda>st. no_command (''oc publish . '' @ REGISTRY_URL) (calls st)) (try_block P env prompt)
     (\<lambda>r st. publish_failures_probed P (Inr r) (calls st))
     (\<lambda>e st. publish_failures_probed P (Inl e) (calls st))"
  unfolding try_block_def
  apply (rule triple_and_then [OF before_publish [OF step1_appends]])
   apply (auto simp: command_of_def)[1]
  apply (rule triple_and_then [OF before_publish [OF getUserRootDir_appends]])
   apply (simp add: command_of_def)
  apply (rule triple_and_then [OF before_publish [OF step2_appends]])
   apply (auto simp: command_of_def REGISTRY_URL_def)[1]
  apply (rule triple_and_then [OF before_publish [OF step3_appends]])
   apply simp
  apply (rule triple_and_then [OF before_publish [OF step4_appends]])
   apply (simp add: command_of_def REGISTRY_URL_def)
  apply (rule triple_and_then [OF before_publish [OF step5_appends]])
   apply (simp add: command_of_def REGISTRY_URL_def sq_def)
  apply (rule triple_and_then [OF before_publish [OF step6_appends]])
   apply (simp add: command_of_def REGISTRY_URL_def)
  apply (rule triple_and_then [OF before_publish [OF step7_appends]])
   apply (simp add: command_of_def REGISTRY_URL_def)
  apply (rule triple_and_then [OF before_publish [OF step8_appends]])
   apply (auto simp: command_of_def REGISTRY_URL_def)[1]
  apply (rule publish_and_after)
  done

text \<open>
  C3, as stated, fails. With an unreachable registry and with a registry that is
  reachable and has rejected the artifact, the probe gives different output, and the two
  runs are the same: the same calls, and the same error thrown.
\<close>

theorem publish_failures_conflated:
  "on_executeCommand registry_unreachable [] ''sandbox-1''
       (''curl -f '' @ REGISTRY_URL @ '' || echo '' @ sq @ ''Registry not accessible'' @ sq)
       ''/home/daytona/create-a-button-component'' None None
     = Resolved \<lparr>exitCode = 0, result = ''Registry not accessible''\<rparr>
   \<and> on_executeCommand registry_rejects [] ''sandbox-1''
       (''curl -f '' @ REGISTRY_URL @ '' || echo '' @ sq @ ''Registry not accessible'' @ sq)
       ''/home/daytona/create-a-button-component'' None None
     = Resolved \<lparr>exitCode = 0, result = ''registry index''\<rparr>
   \<and> fst (generateOpenComponentInDaytona registry_unreachable env0 None
            (Some ''Create a button component''))
       = Threw (Error ''Component publish failed - check if registry is running'')
   \<and> fst (generateOpenComponentInDaytona registry_rejects env0 None
            (Some ''Create a button component''))
       = Threw (Error ''Component publish failed - check if registry is running'')
   \<and> generateOpenComponentInDaytona registry_unreachable env0 None (Some ''Create a button component'')
       = generateOpenComponentInDaytona registry_rejects env0 None (Some ''Create a button component'')"
  by (simp add: registry_unreachable_def registry_rejects_def button_name step_defs world_defs)

text \<open>
  C3, amended. Whenever the publish command of a run is answered with a non-zero exit
  code, the run's next and last call is the probe \<open>curl -f <registry URL> || echo ...\<close>,
  made without a timeout, and whatever the probe returns the run throws the one error
  \<open>Component publish failed - check if registry is running\<close>; only if the probe call
  itself rejects, the run throws the probe's error instead.
\<close>

theorem publish_failure_one_error:
  assumes "snd (generateOpenComponentInDaytona P env sid prompt) = pre @ publish_call sb dir # post"
    and "on_executeCommand P pre sb (''oc publish . '' @ REGISTRY_URL) dir None (Some 180000)
           = Resolved r"
    and "exitCode r \<noteq> 0"
  shows "post = [probe_call sb dir]
         \<and> (case on_executeCommand P (pre @ [publish_call sb dir]) sb
                   (''curl -f '' @ REGISTRY_URL @ '' || echo '' @ sq @ ''Registry not accessible'' @ sq)
                   dir None None of
              Resolved a \<Rightarrow> fst (generateOpenComponentInDaytona P env sid prompt) = Threw publish_error
            | Rejected e \<Rightarrow> fst (generateOpenComponentInDaytona P env sid prompt) = Threw e)"
proof (cases "truthy (DAYTONA_API_KEY env) \<and> truthy (ANTHROPIC_API_KEY env)")
  case True
  obtain res st where tb: "try_block P env prompt (initial_state sid) = (res, st)"
    by (cases "try_block P env prompt (initial_state sid)")
  have "no_command (''oc publish . '' @ REGISTRY_URL) (calls (initial_state sid))"
    by (simp add: no_command_def initial_state_def)
  with try_block_publish [of P env prompt] tb have "publish_failures_probed P res (calls st)"
    by (cases res) (auto dest: triple_Inl triple_Inr)
  moreover from True tb assms(1) have "calls st = pre @ publish_call sb dir # post"
    by (simp add: run_calls)
  ultimately have p: "post = [probe_call sb dir]
         \<and> (case on_executeCommand P (pre @ [publish_call sb dir]) sb
                   (''curl -f '' @ REGISTRY_URL @ '' || echo '' @ sq @ ''Registry not accessible'' @ sq)
                   dir None None of
              Resolved a \<Rightarrow> res = Inl publish_error
            | Rejected e \<Rightarrow> res = Inl e)"
    using assms(2,3) unfolding publish_failures_probed_def by blast
  from True tb have "res = Inl e \<Longrightarrow> fst (generateOpenComponentInDaytona P env sid prompt) = Threw e" for e
    by (simp add: run_with_keys)
  with p show ?thesis
    by (auto split: promise.splits)
next
  case False
  then have "generateOpenComponentInDaytona P env sid prompt = (Exited 1, [Process_exit 1])"
    by (rule run_without_keys)
  with assms(1) have "[Process_exit 1] = pre @ publish_call sb dir # post"
    by simp
  then have False
    by (cases pre) (simp_all add: publish_call_def)
  then show ?thesis ..
qed

theorem publish_failure_one_error_witness:
  "snd (generateOpenComponentInDaytona registry_rejects env0 None (Some ''Create a button component''))
     = butlast (butlast (snd (generateOpenComponentInDaytona all_ok env0 None
                               (Some ''Create a button component''))))
       @ publish_call ''sandbox-1'' ''/home/daytona/create-a-button-component''
       # [probe_call ''sandbox-1'' ''/home/daytona/create-a-button-component'']
   \<and> on_executeCommand registry_rejects
        (butlast (butlast (snd (generateOpenComponentInDaytona all_ok env0 None
                                 (Some ''Create a button component'')))))
        ''sandbox-1'' (''oc publish . '' @ REGISTRY_URL) ''/home/daytona/create-a-button-component''
        None (Some 180000)
      = Resolved \<lparr>exitCode = 1, result = ''version already exists''\<rparr>
   \<and> fst (generateOpenComponentInDaytona registry_rejects env0 None (Some ''Create a button component''))
      = Threw publish_error"
proof -
  let ?pre = "butlast (butlast (snd (generateOpenComponentInDaytona all_ok env0 None
                                      (Some ''Create a button component''))))"
  let ?dir = "''/home/daytona/create-a-button-component''"
  have c: "snd (generateOpenComponentInDaytona registry_rejects env0 None (Some ''Create a button component''))
     = ?pre @ publish_call ''sandbox-1'' ?dir # [probe_call ''sandbox-1'' ?dir]"
    unfolding button_run_calls
    by (simp add: registry_rejects_def publish_call_def probe_call_def button_name step_defs
        world_defs)
  have a: "on_executeCommand registry_rejects ?pre ''sandbox-1'' (''oc publish . '' @ REGISTRY_URL)
             ?dir None (Some 180000)
      = Resolved \<lparr>exitCode = 1, result = ''version already exists''\<rparr>"
    by (simp add: registry_rejects_def answering_def)
  have n: "exitCode \<lparr>exitCode = 1, result = ''version already exists''\<rparr> \<noteq> 0"
    by simp
  have p: "on_executeCommand registry_rejects (?pre @ [publish_call ''sandbox-1'' ?dir]) ''sandbox-1''
             (''curl -f '' @ REGISTRY_URL @ '' || echo '' @ sq @ ''Registry not accessible'' @ sq)
             ?dir None None
      = Resolved \<lparr>exitCode = 0, result = ''registry index''\<rparr>"
    by (simp add: registry_rejects_def answering_def REGISTRY_URL_def)
  from publish_failure_one_error [OF c a n] p c a show ?thesis
    by simp
qed

end
